theory Spec2Isabelle
  imports Complex_Main "HOL-Library.Char_ord" "HOL-Library.List_Lexorder" "HOL-Library.AList"
begin

section \<open>Strings\<close>

text \<open>
  Python strings are modelled as byte strings (UTF-8); \<open>k in s\<close> is contiguous
  containment, which UTF-8 preserves, and \<open>sorted\<close> on strings is the lexicographic
  order of the bytes. \<open>str.lower\<close> is modelled on the ASCII letters and leaves every
  other byte as it is; \<open>str.split()\<close> splits at runs of ASCII whitespace. A slice
  \<open>s[:n]\<close> counts bytes here, code points in Python; the only slice of the model is the
  context preview inside a prompt.
\<close>

fun starts_with :: "string \<Rightarrow> string \<Rightarrow> bool" where
  "starts_with [] s = True"
| "starts_with (k # ks) [] = False"
| "starts_with (k # ks) (c # cs) = (k = c \<and> starts_with ks cs)"

fun contains :: "string \<Rightarrow> string \<Rightarrow> bool" where
  "contains k [] = (k = [])"
| "contains k (c # cs) = (starts_with k (c # cs) \<or> contains k cs)"

definition lower_char :: "char \<Rightarrow> char" where
  "lower_char c =
     (if 65 \<le> (of_char c :: nat) \<and> (of_char c :: nat) \<le> 90
      then char_of ((of_char c :: nat) + 32) else c)"

definition lower :: "string \<Rightarrow> string" where
  "lower s = map lower_char s"

definition any_in :: "string list \<Rightarrow> string \<Rightarrow> bool" where
  "any_in ks s = list_ex (\<lambda>k. contains k s) ks"

fun join :: "string \<Rightarrow> string list \<Rightarrow> string" where
  "join sep [] = []"
| "join sep [x] = x"
| "join sep (x # y # ys) = x @ sep @ join sep (y # ys)"

definition is_space :: "char \<Rightarrow> bool" where
  "is_space c = ((of_char c :: nat) \<in> {9, 10, 11, 12, 13, 28, 29, 30, 31, 32})"

fun split_ws :: "string \<Rightarrow> string \<Rightarrow> string list" where
  "split_ws cur [] = (if cur = [] then [] else [cur])"
| "split_ws cur (c # cs) =
     (if is_space c then (if cur = [] then split_ws [] cs else cur # split_ws [] cs)
      else split_ws (cur @ [c]) cs)"

definition split :: "string \<Rightarrow> string list" where
  "split s = split_ws [] s"

section \<open>Schemas (agent/schemas.py)\<close>

datatype RiskLevel = LOW | MEDIUM | HIGH | CRITICAL

fun risk_value :: "RiskLevel \<Rightarrow> string" where
  "risk_value LOW = ''low''"
| "risk_value MEDIUM = ''medium''"
| "risk_value HIGH = ''high''"
| "risk_value CRITICAL = ''critical''"

record ReasoningMapEntry =
  fact_field :: string
  legal_meaning :: string
  gdpr_subsection :: string
  justification :: string

record ComplianceResponse =
  summary :: string
  needs_clarification :: bool
  missing_preconditions :: "string list"
  legal_basis :: string
  scope_limitation :: string
  risk_analysis :: string
  risk_level :: RiskLevel
  confidence_score :: rat
  references_field :: "string list option"
  reasoning_map :: "ReasoningMapEntry list"

record ClarificationOption =
  opt_id :: string
  opt_text :: string
  opt_rank :: int

record ClarificationResponse =
  cr_needs_clarification :: bool
  cr_summary :: string
  cr_options :: "ClarificationOption list"

text \<open>JSON-like values: the payload of a Python dict with string keys.\<close>

datatype jv = JStr string | JNum rat | JInt int | JBool bool | JNone | JList "jv list"
  | JDict "(string \<times> jv) list"

type_synonym pydict = "(string \<times> jv) list"

text \<open>A dict literal: later keys overwrite earlier ones in place, new keys are appended.\<close>

definition dict_of :: "(string \<times> jv) list \<Rightarrow> pydict" where
  "dict_of kvs = foldl (\<lambda>d (k, v). AList.update k v d) [] kvs"

definition has_key :: "pydict \<Rightarrow> string \<Rightarrow> bool" where
  "has_key d k = (map_of d k \<noteq> None)"

definition entry_dump :: "ReasoningMapEntry \<Rightarrow> jv" where
  "entry_dump e = JDict
     [(''fact'', JStr (fact_field e)), (''legal_meaning'', JStr (legal_meaning e)),
      (''gdpr_subsection'', JStr (gdpr_subsection e)), (''justification'', JStr (justification e))]"

text \<open>\<open>ComplianceResponse.model_dump()\<close>: one key per field, in declaration order.\<close>

definition model_dump :: "ComplianceResponse \<Rightarrow> pydict" where
  "model_dump r =
     [(''summary'', JStr (summary r)),
      (''needs_clarification'', JBool (needs_clarification r)),
      (''missing_preconditions'', JList (map JStr (missing_preconditions r))),
      (''legal_basis'', JStr (legal_basis r)),
      (''scope_limitation'', JStr (scope_limitation r)),
      (''risk_analysis'', JStr (risk_analysis r)),
      (''risk_level'', JStr (risk_value (risk_level r))),
      (''confidence_score'', JNum (confidence_score r)),
      (''references'', (case references_field r of None \<Rightarrow> JNone | Some xs \<Rightarrow> JList (map JStr xs))),
      (''reasoning_map'', JList (map entry_dump (reasoning_map r)))]"

definition option_dump :: "ClarificationOption \<Rightarrow> jv" where
  "option_dump opt = JDict
     [(''id'', JStr (opt_id opt)), (''text'', JStr (opt_text opt)), (''rank'', JInt (opt_rank opt))]"

text \<open>
  The dict stored under the state key \<open>analysis\<close>, classified by what
  \<open>ComplianceResponse(**d)\<close> does with it: the empty dict (falsy), a dict the schema
  rejects (with the text of the exception), or the dump of a record, which the schema
  accepts and parses back to that record.
\<close>

datatype analysis_dict = EmptyDict | Malformed string | Dumped ComplianceResponse

fun parse_analysis :: "analysis_dict \<Rightarrow> string + ComplianceResponse" where
  "parse_analysis EmptyDict = Inl ''validation error for ComplianceResponse''"
| "parse_analysis (Malformed e) = Inl e"
| "parse_analysis (Dumped r) = Inr r"

fun truthy_analysis :: "analysis_dict option \<Rightarrow> bool" where
  "truthy_analysis None = False"
| "truthy_analysis (Some EmptyDict) = False"
| "truthy_analysis (Some d) = True"

section \<open>State (agent/state.py)\<close>

record message =
  role :: string
  content :: string
  name :: "string option"

record tool_call =
  tc_name :: string
  tc_arguments :: pydict

record AgentState =
  messages :: "message list"
  user_query :: string
  domain :: string
  retrieved_context :: string
  analysis :: "analysis_dict option"
  validation_errors :: "string list"
  retry_count :: int
  route :: string
  tool_calls :: "tool_call list"
  final_response :: "pydict option"
  thread_id :: string
  clarification_options :: "jv list option"
  user_selections :: "string list option"

text \<open>
  A partial state update: the dict a node returns. A key that is absent is \<open>None\<close>.
  No node writes \<open>None\<close> under a key, so the written value is never optional itself.
\<close>

record update =
  u_messages :: "message list option"
  u_retrieved_context :: "string option"
  u_analysis :: "analysis_dict option"
  u_validation_errors :: "string list option"
  u_retry_count :: "int option"
  u_route :: "string option"
  u_tool_calls :: "tool_call list option"
  u_final_response :: "pydict option"
  u_clarification_options :: "jv list option"

definition no_update :: update where
  "no_update = \<lparr>u_messages = None, u_retrieved_context = None, u_analysis = None,
     u_validation_errors = None, u_retry_count = None, u_route = None, u_tool_calls = None,
     u_final_response = None, u_clarification_options = None\<rparr>"

text \<open>
  The merge of a node's update into the state: \<open>messages\<close> is annotated with
  \<open>operator.add\<close> (concatenation), every other key is last-write-wins.
\<close>

definition merge :: "AgentState \<Rightarrow> update \<Rightarrow> AgentState" where
  "merge s u = s\<lparr>
     messages := (case u_messages u of None \<Rightarrow> messages s | Some ms \<Rightarrow> messages s @ ms),
     retrieved_context := (case u_retrieved_context u of None \<Rightarrow> retrieved_context s | Some c \<Rightarrow> c),
     analysis := (case u_analysis u of None \<Rightarrow> analysis s | Some a \<Rightarrow> Some a),
     validation_errors := (case u_validation_errors u of None \<Rightarrow> validation_errors s | Some e \<Rightarrow> e),
     retry_count := (case u_retry_count u of None \<Rightarrow> retry_count s | Some n \<Rightarrow> n),
     route := (case u_route u of None \<Rightarrow> route s | Some r \<Rightarrow> r),
     tool_calls := (case u_tool_calls u of None \<Rightarrow> tool_calls s | Some t \<Rightarrow> t),
     final_response := (case u_final_response u of None \<Rightarrow> final_response s | Some f \<Rightarrow> Some f),
     clarification_options := (case u_clarification_options u of None \<Rightarrow> clarification_options s
        | Some c \<Rightarrow> Some c)\<rparr>"

section \<open>Routing functions and edges (agent/nodes.py, agent/graph.py)\<close>

datatype node = Guardrail | Chat | Retrieve | Clarify | Llm | Validator | SemanticOverride
  | Governance | Fallback | ToolExecutor | END

definition route_after_guardrail :: "AgentState \<Rightarrow> string" where
  "route_after_guardrail s =
     (if route s = ''blocked'' then ''end''
      else if route s = ''general'' then ''chat''
      else ''retrieve'')"

definition route_after_clarify :: "AgentState \<Rightarrow> string" where
  "route_after_clarify s = (if route s = ''depends'' then ''end'' else ''llm'')"

definition route_after_llm :: "AgentState \<Rightarrow> string" where
  "route_after_llm s =
     (if route s = ''blocked'' then ''end''
      else if tool_calls s \<noteq> [] then ''tool_executor''
      else ''validator'')"

definition route_after_validation :: "AgentState \<Rightarrow> string" where
  "route_after_validation s =
     (if validation_errors s = [] then ''semantic_override''
      else if retry_count s < 3 then ''llm''
      else ''fallback'')"

text \<open>The path maps given to \<open>add_conditional_edges\<close> in \<open>build_graph\<close>.\<close>

definition guardrail_edges :: "string \<rightharpoonup> node" where
  "guardrail_edges = map_of [(''end'', END), (''chat'', Chat), (''retrieve'', Retrieve)]"

definition clarify_edges :: "string \<rightharpoonup> node" where
  "clarify_edges = map_of [(''end'', END), (''llm'', Llm)]"

definition llm_edges :: "string \<rightharpoonup> node" where
  "llm_edges = map_of [(''end'', END), (''tool_executor'', ToolExecutor), (''validator'', Validator)]"

definition validator_edges :: "string \<rightharpoonup> node" where
  "validator_edges = map_of [(''semantic_override'', SemanticOverride), (''llm'', Llm),
     (''fallback'', Fallback)]"


section \<open>Collaborators and formatting taken as parameters\<close>

text \<open>
  Python's formatting built-ins whose exact output plays no part in control flow, the
  prompt texts, the domain rule check \<open>_validate_response\<close> and the regulation corpus
  read from the data file. Every theorem below holds for all values of these.
\<close>

record Article =
  article_id :: string
  title :: "string option"
  clauses :: "(string \<times> string) list"

record collab =
  json_dumps :: "analysis_dict \<Rightarrow> string"
  repr_list :: "string list \<Rightarrow> string"
  fmt_2f :: "rat \<Rightarrow> string"
  prompt_gdpr :: string
  prompt_fda :: string
  prompt_ccpa :: string
  chat_persona :: string
  clarify_prompt :: string
  validate_response :: "ComplianceResponse \<Rightarrow> string \<Rightarrow> string list"
  articles :: "Article list"

definition nl :: string where
  "nl = [CHR 0x0A]"

fun digits :: "nat \<Rightarrow> string" where
  "digits n = (if n < 10 then [char_of (48 + n)] else digits (n div 10) @ [char_of (48 + n mod 10)])"

definition str_int :: "int \<Rightarrow> string" where
  "str_int i = (if i < 0 then ''-'' @ digits (nat (- i)) else digits (nat i))"

datatype api_failure = SchemaMismatch string | Outage nat "string list"

text \<open>
  The exceptions of the model: \<open>ValueError\<close> of \<open>get_llm_client\<close>, the
  \<open>RuntimeError\<close> of \<open>safe_api_call\<close>, \<open>IndexError\<close> on an empty list of choices,
  the validation error of the schema, and the \<open>RuntimeError\<close> of a search on an index that
  was not built.
\<close>

datatype exn = ValueError string | RuntimeError api_failure | IndexError
  | ValidationError string | IndexNotBuilt

text \<open>\<open>str(e)\<close> of the two \<open>RuntimeError\<close>s raised by \<open>safe_api_call\<close>.\<close>

definition failure_text :: "collab \<Rightarrow> api_failure \<Rightarrow> string" where
  "failure_text K f = (case f of
       SchemaMismatch m \<Rightarrow> ''Schema Validation Error: '' @ m
     | Outage n errs \<Rightarrow> ''[OUTAGE] SERVICE OUTAGE: All '' @ str_int (int n)
         @ '' models exhausted. Errors: '' @ repr_list K errs)"

section \<open>The failover loop (agent/llm\_client.py)\<close>

text \<open>
  A client's \<open>chat.completions.create\<close> either raises (\<open>Inl\<close> the text of the
  exception) or returns a response. \<open>_get_clients()\<close> yields the two clients and the
  model list, or raises \<open>ValueError\<close> when no API key is set.
\<close>

record 'r llm_clients =
  base_create :: "string \<Rightarrow> message list \<Rightarrow> rat \<Rightarrow> string + 'r"
  instructor_create :: "string \<Rightarrow> message list \<Rightarrow> rat \<Rightarrow> string + 'r"
  models :: "string list"

definition schema_marker :: "string \<Rightarrow> bool" where
  "schema_marker error_msg =
     (contains ''tool call validation failed'' error_msg \<or> contains ''validation error'' error_msg)"

text \<open>
  The loop body of \<open>safe_api_call\<close> over the remaining models; \<open>tried\<close> records the
  models on which a call was issued, \<open>errors\<close> is the local error list.
\<close>

fun failover :: "(string \<Rightarrow> string + 'r) \<Rightarrow> nat \<Rightarrow> string list \<Rightarrow> string list \<Rightarrow> string list
    \<Rightarrow> string list \<times> (api_failure + 'r)" where
  "failover create n errors tried [] = (tried, Inl (Outage n (take 3 errors)))"
| "failover create n errors tried (m # ms) =
     (case create m of
        Inr response \<Rightarrow> (tried @ [m], Inr response)
      | Inl e \<Rightarrow>
          (if schema_marker (lower e) then (tried @ [m], Inl (SchemaMismatch (lower e)))
           else failover create n (errors @ [m @ '': '' @ e]) (tried @ [m]) ms))"

text \<open>The call issued in the loop body: the instructor client when a response model is given.\<close>

definition api_create :: "'r llm_clients \<Rightarrow> message list \<Rightarrow> rat \<Rightarrow> bool \<Rightarrow> string \<Rightarrow> string + 'r" where
  "api_create cl msgs temperature response_model m =
     (if response_model then instructor_create cl m msgs temperature
      else base_create cl m msgs temperature)"

definition safe_api_call :: "'r llm_clients \<Rightarrow> message list \<Rightarrow> rat \<Rightarrow> bool
    \<Rightarrow> string list \<times> (api_failure + 'r)" where
  "safe_api_call cl msgs temperature response_model =
     failover (api_create cl msgs temperature response_model) (length (models cl)) [] [] (models cl)"

text \<open>
  A model whose call fails with an error that is not classified as a schema mismatch: the
  failures after which the loop goes on to the next model.
\<close>

definition retryable :: "(string \<Rightarrow> string + 'r) \<Rightarrow> string \<Rightarrow> bool" where
  "retryable create m = (case create m of Inl e \<Rightarrow> \<not> schema_marker (lower e) | Inr _ \<Rightarrow> False)"

section \<open>Nodes (agent/nodes.py)\<close>

definition msg :: "string \<Rightarrow> string \<Rightarrow> message" where
  "msg r c = \<lparr>role = r, content = c, name = None\<rparr>"

subsection \<open>Guardrail\<close>

definition unethical_keywords :: "string list" where
  "unethical_keywords =
     [''evade'', ''bypass'', ''avoid detection'', ''hide'', ''loophole'', ''how can i hide'']"

definition general_triggers :: "string list" where
  "general_triggers = [''hi'', ''hello'', ''who are you'', ''what can you do'', ''help'',
     ''thanks'', ''good morning'', ''capabilities'']"

definition blocked_response :: ComplianceResponse where
  "blocked_response = \<lparr>
     summary = ''This request involves evasion of mandatory compliance obligations. ''
       @ ''Attempting to hide data breaches violates Article 33 (Notification Authority) ''
       @ ''and Article 34 (Notification to Data Subject).'',
     needs_clarification = False,
     missing_preconditions = [],
     legal_basis = ''GDPR Art 5(1)(a) (Lawfulness & Transparency)'',
     scope_limitation = ''N/A - Illegal Request'',
     risk_analysis = ''Severe regulatory fines (up to 4% global turnover) and criminal liability.'',
     risk_level = HIGH,
     confidence_score = 1,
     references_field = Some [],
     reasoning_map = []\<rparr>"

definition node_guardrail :: "AgentState \<Rightarrow> update" where
  "node_guardrail s =
     (let query = user_query s; q_lower = lower query in
      if any_in unethical_keywords q_lower
      then no_update\<lparr>u_route := Some ''blocked'',
             u_final_response := Some (model_dump blocked_response)\<rparr>
      else if length (split query) < 10 \<and> any_in general_triggers q_lower
      then no_update\<lparr>u_route := Some ''general''\<rparr>
      else no_update\<lparr>u_route := Some ''analysis''\<rparr>)"

subsection \<open>Chat\<close>

text \<open>
  A node that calls the generative collaborator returns, next to its result, the list of
  models on which a generative call was issued. The chat completion is modelled by the
  contents of its \<open>choices\<close>.
\<close>

definition node_chat :: "collab \<Rightarrow> string + (string list) llm_clients \<Rightarrow> AgentState
    \<Rightarrow> string list \<times> (exn + update)" where
  "node_chat K gc s =
     (let msgs = [msg ''system'' (chat_persona K), msg ''user'' (user_query s)] in
      case gc of
        Inl e \<Rightarrow> ([], Inl (ValueError e))
      | Inr cl \<Rightarrow>
          (case safe_api_call cl msgs (7 / 10) False of
             (tried, Inl f) \<Rightarrow> (tried, Inl (RuntimeError f))
           | (tried, Inr choices) \<Rightarrow>
               (case choices of
                  [] \<Rightarrow> (tried, Inl IndexError)
                | chat_text # _ \<Rightarrow>
                    (tried, Inr (no_update\<lparr>u_final_response :=
                       Some (dict_of [(''type'', JStr ''chat''), (''message'', JStr chat_text)])\<rparr>)))))"


subsection \<open>Retrieve\<close>

definition needs_multi_article_reasoning :: "string \<Rightarrow> bool" where
  "needs_multi_article_reasoning query =
     any_in [''fine'', ''penalty'', ''maximum'', ''sanction'', ''liable'', ''consequence'', ''breach'']
       (lower query)"

text \<open>A hit of \<open>hybrid_search\<close>: a metadata entry, its \<open>article_id\<close> already a string.\<close>

record hit =
  hit_article_id :: string
  hit_clause_id :: string
  hit_text :: string

definition DOMAIN_MAP :: "(string \<times> string list \<times> string list) list" where
  "DOMAIN_MAP =
     [(''penalty_logic'', [''fine'', ''penalty'', ''administrative'', ''sanction'', ''euro''], [''83'']),
      (''scope_logic'', [''apply'', ''applies'', ''scope'', ''territorial'', ''material'', ''when does''],
         [''2'', ''3'']),
      (''definition_logic'', [''define'', ''definition'', ''meaning'', ''what is a'', ''who is a''], [''4'']),
      (''rights_logic'', [''delete'', ''erasure'', ''erase'', ''forget'', ''access'', ''rectify'', ''copy''],
         [''6'', ''12'', ''15'', ''17'']),
      (''dpo_logic'', [''dpo'', ''officer'', ''representative'', ''public authority''],
         [''37'', ''38'', ''39'']),
      (''transfer_logic'', [''transfer'', ''third country'', ''abroad'', ''adequacy''],
         [''45'', ''46'', ''49''])]"

text \<open>
  The set \<open>retrieved_ids\<close> is kept as a list; \<open>sorted(list(retrieved_ids))\<close> removes the
  duplicates and sorts. The data file is taken as read (\<open>articles\<close>); the hybrid search
  over the index and the lawsuit search are external calls, passed to the node as functions,
  and the search may raise (\<open>Inl\<close>), as it does on an index that was never built.
\<close>

fun inject :: "string \<Rightarrow> (string \<times> string list \<times> string list) list \<Rightarrow> string list \<Rightarrow> string list" where
  "inject q_lower [] ids = ids"
| "inject q_lower ((_, triggers, art_ids) # rules) ids =
     inject q_lower rules (if any_in triggers q_lower then ids @ art_ids else ids)"

definition article_map :: "collab \<Rightarrow> string \<rightharpoonup> Article" where
  "article_map K = map_of (rev (map (\<lambda>a. (article_id a, a)) (articles K)))"

definition expand_article_by_id :: "collab \<Rightarrow> string \<Rightarrow> string" where
  "expand_article_by_id K aid =
     (case article_map K aid of
        None \<Rightarrow> ''[Error: Article '' @ aid @ '' not found in structured data]''
      | Some article \<Rightarrow>
          join nl ((''Article '' @ aid @ '': '' @ (case title article of None \<Rightarrow> [] | Some t \<Rightarrow> t))
            # map (\<lambda>(cid, txt). ''['' @ cid @ ''] '' @ txt) (sort_key fst (clauses article))))"

definition node_retrieve :: "collab \<Rightarrow> (string \<Rightarrow> nat \<Rightarrow> exn + hit list) \<Rightarrow> (string \<Rightarrow> string)
    \<Rightarrow> AgentState \<Rightarrow> exn + update" where
  "node_retrieve K hybrid_search search_lawsuits s =
     (let query = user_query s in
      if domain s = ''GDPR'' then
        (let is_complex = needs_multi_article_reasoning query;
             k = (if is_complex then 6 else 3) in
         case hybrid_search query k of
           Inl e \<Rightarrow> Inl e
         | Inr results \<Rightarrow>
             if results = [] then
               Inr (no_update\<lparr>u_retrieved_context := Some [],
                 u_final_response := Some (dict_of [(''type'', JStr ''error''),
                    (''message'', JStr ''Insufficient context found.'')]),
                 u_route := Some ''blocked''\<rparr>)
             else
               (let retrieved_ids = inject (lower query) DOMAIN_MAP (map hit_article_id results);
                    full_contexts = map (expand_article_by_id K) (sort (remdups retrieved_ids))
                in Inr (no_update\<lparr>u_retrieved_context := Some (join (nl @ nl) full_contexts)\<rparr>)))
      else if domain s = ''FDA'' then
        Inr (no_update\<lparr>u_retrieved_context := Some (search_lawsuits query)\<rparr>)
      else if domain s = ''CCPA'' then
        Inr (no_update\<lparr>u_retrieved_context := Some
          ''Source: CCPA/CPRA Legal Statutes (Modeled Knowledge - Statutory Exception Active).''\<rparr>)
      else Inr (no_update\<lparr>u_retrieved_context := Some []\<rparr>))"

subsection \<open>Clarify\<close>

definition definition_keywords :: "string list" where
  "definition_keywords = [''what is'', ''define'', ''meaning of'', ''article'', ''section'', ''explain'']"

definition static_options :: "jv list" where
  "static_options =
     [JDict (dict_of [(''id'', JStr ''opt_custom''), (''text'', JStr ''Other (describe your situation)''),
        (''rank'', JInt 5)]),
      JDict (dict_of [(''id'', JStr ''opt_unknown''),
        (''text'', JStr (''I don'' @ [CHR 0x27] @ ''t know / Skip clarification'')), (''rank'', JInt 6)])]"

definition clear :: update where
  "clear = no_update\<lparr>u_route := Some ''clear''\<rparr>"

definition node_clarify :: "collab \<Rightarrow> string + ClarificationResponse llm_clients \<Rightarrow> AgentState
    \<Rightarrow> string list \<times> update" where
  "node_clarify K gc s =
     (case user_selections s of
        Some (sel # sels) \<Rightarrow>
          ([], no_update\<lparr>
             u_retrieved_context := Some (retrieved_context s @ nl @ nl @ ''[USER CLARIFICATION]'' @ nl
                @ join nl (map (\<lambda>x. ''- '' @ x) (sel # sels))),
             u_route := Some ''clear''\<rparr>)
      | _ \<Rightarrow>
          (let query = user_query s; context = retrieved_context s in
           if any_in definition_keywords (lower query) then ([], clear)
           else
             (case gc of
                Inl e \<Rightarrow> ([], clear)
              | Inr cl \<Rightarrow>
                  (let msgs = [msg ''system'' (clarify_prompt K),
                               msg ''user'' (''Domain: '' @ domain s @ nl @ ''Query: '' @ query @ nl
                                 @ ''Context Preview: '' @ take 500 context)] in
                   case safe_api_call cl msgs 0 True of
                     (tried, Inl f) \<Rightarrow> (tried, clear)
                   | (tried, Inr result) \<Rightarrow>
                       if \<not> cr_needs_clarification result \<or> cr_options result = [] then (tried, clear)
                       else
                         (let options = map option_dump (take 4 (cr_options result)) @ static_options in
                          (tried, no_update\<lparr>
                             u_route := Some ''depends'',
                             u_clarification_options := Some options,
                             u_final_response := Some (dict_of [(''type'', JStr ''clarification''),
                                (''summary'', JStr (cr_summary result)),
                                (''options'', JList options)])\<rparr>))))))"

subsection \<open>LLM (structured generation)\<close>

datatype llm_out = TextOut string | Structured ComplianceResponse

definition definition_query :: "string \<Rightarrow> bool" where
  "definition_query q_lower =
     any_in [''what is'', ''define'', ''meaning of'', ''considered personal info'', ''stand for'',
       ''are ip addresses''] q_lower"

definition PROMPTS_get :: "collab \<Rightarrow> string \<Rightarrow> string" where
  "PROMPTS_get K d =
     (if d = ''GDPR'' then prompt_gdpr K else if d = ''FDA'' then prompt_fda K
      else if d = ''CCPA'' then prompt_ccpa K else prompt_gdpr K)"

definition llm_messages :: "collab \<Rightarrow> AgentState \<Rightarrow> message list" where
  "llm_messages K s =
     (let query = user_query s; context = retrieved_context s; prev_errors = validation_errors s;
          risk_guidance = (if definition_query (lower query)
            then nl @ ''[CONTEXT NOTE: This is a DEFINITION query. Risk Level must be ''
              @ [CHR 0x27] @ ''low'' @ [CHR 0x27] @ ''. Calibrate confidence to 1.0.]'' else []);
          base = [msg ''system'' (PROMPTS_get K (domain s) @ risk_guidance),
                  msg ''user'' (''CONTEXT (Source: '' @ domain s @ '' Knowledge):'' @ nl @ context
                    @ nl @ nl @ ''QUERY: '' @ query)] in
      if retry_count s > 0 \<and> prev_errors \<noteq> [] then
        base
        @ (case analysis s of
             None \<Rightarrow> [] | Some EmptyDict \<Rightarrow> []
           | Some prev_analysis \<Rightarrow> [msg ''assistant'' (json_dumps K prev_analysis)])
        @ [msg ''user'' (''CRITICAL LOGIC ERROR: Your previous answer failed validation rules.'' @ nl
             @ ''Errors:'' @ nl @ join nl prev_errors @ nl @ nl
             @ ''FIX IMMEDIATELY. Cite the missing articles. Correct the scope.'')]
      else base)"

definition llm_error :: "string \<Rightarrow> update" where
  "llm_error m = no_update\<lparr>
     u_final_response := Some (dict_of [(''type'', JStr ''error''), (''message'', JStr m)]),
     u_route := Some ''blocked''\<rparr>"

definition node_llm :: "collab \<Rightarrow> string + llm_out llm_clients \<Rightarrow> AgentState \<Rightarrow> string list \<times> update" where
  "node_llm K gc s =
     (let msgs = llm_messages K s in
      case gc of
        Inl e \<Rightarrow> ([], llm_error (''API Error: '' @ e))
      | Inr cl \<Rightarrow>
          (case safe_api_call cl msgs 0 True of
             (tried, Inl f) \<Rightarrow> (tried, llm_error (''API Error: '' @ failure_text K f))
           | (tried, Inr (TextOut structured_response)) \<Rightarrow> (tried, llm_error structured_response)
           | (tried, Inr (Structured structured_response)) \<Rightarrow>
               (tried, no_update\<lparr>
                  u_analysis := Some (Dumped structured_response),
                  u_validation_errors := Some [],
                  u_messages := Some msgs\<rparr>)))"

subsection \<open>Validator\<close>

definition no_analysis :: update where
  "no_analysis = no_update\<lparr>u_validation_errors := Some [''No analysis to validate.'']\<rparr>"

definition node_validator :: "collab \<Rightarrow> AgentState \<Rightarrow> update" where
  "node_validator K s =
     (case analysis s of
        None \<Rightarrow> no_analysis
      | Some EmptyDict \<Rightarrow> no_analysis
      | Some analysis_dict \<Rightarrow>
          (let query = user_query s; retry_count = retry_count s in
           case parse_analysis analysis_dict of
             Inl e \<Rightarrow> no_update\<lparr>
               u_validation_errors := Some [''Failed to parse analysis: '' @ e],
               u_retry_count := Some (retry_count + 1)\<rparr>
           | Inr response \<Rightarrow>
               (let errors = validate_response K response query in
                if errors \<noteq> [] then
                  no_update\<lparr>u_validation_errors := Some errors,
                    u_retry_count := Some (retry_count + 1)\<rparr>
                else no_update\<lparr>u_validation_errors := Some []\<rparr>)))"


subsection \<open>Semantic override\<close>

definition sect :: string where
  "sect = [CHR 0xC2, CHR 0xA7]"

definition SEMANTIC_MAP :: "(string \<times> string \<times> RiskLevel \<times> rat) list" where
  "SEMANTIC_MAP =
     [(''personal information'', sect @ ''1798.140(v)(1)'', LOW, 1),
      (''sensitive'', sect @ ''1798.140(ae)'', MEDIUM, 95 / 100),
      (''sale'', sect @ ''1798.140(ad)'', MEDIUM, 95 / 100),
      (''share'', sect @ ''1798.140(ah)'', MEDIUM, 95 / 100),
      (''fraud'', sect @ ''1798.105(d)(1)'', MEDIUM, 90 / 100),
      (''delete'', sect @ ''1798.105'', MEDIUM, 90 / 100),
      (''geolocation'', sect @ ''1798.140(ae)'', MEDIUM, 95 / 100)]"

definition gdpr_tax_override :: "ComplianceResponse \<Rightarrow> ComplianceResponse" where
  "gdpr_tax_override response = response\<lparr>
     risk_level := MEDIUM,
     confidence_score := 1,
     legal_basis := ''GDPR Article 17(3)(b) (Exception) & Article 6(1)(c) (Lawful Basis)'',
     scope_limitation := ''Only personal data strictly necessary for the legal obligation may be retained. ''
       @ ''All other personal data must be erased.'',
     summary := ''Partial Refusal. Under GDPR Article 17(3)(b), the right to erasure does not apply where ''
       @ ''processing is necessary to comply with a legal obligation. Retention of transaction records ''
       @ ''required by tax law is lawful under Article 6(1)(c). However, only data strictly necessary ''
       @ ''for the obligation may be retained; all other data must be erased.''\<rparr>"

definition domain_override :: "string \<Rightarrow> string \<Rightarrow> ComplianceResponse \<Rightarrow> ComplianceResponse" where
  "domain_override d q_lower response =
     (if d = ''GDPR'' then
        (if contains ''tax'' q_lower
            \<and> (contains ''erase'' q_lower \<or> contains ''delet'' q_lower \<or> contains ''refuse'' q_lower)
         then gdpr_tax_override response else response)
      else if d = ''CCPA'' then
        (case find (\<lambda>(key, _). contains key q_lower) SEMANTIC_MAP of
           Some (key, citation, risk, conf) \<Rightarrow> response\<lparr>
             legal_basis := ''California Civil Code '' @ citation,
             risk_level := risk,
             confidence_score := conf\<rparr>
         | None \<Rightarrow> response)
      else response)"

definition definition_override :: "bool \<Rightarrow> ComplianceResponse \<Rightarrow> ComplianceResponse" where
  "definition_override is_definition_query response =
     (if is_definition_query \<and> risk_level response \<noteq> HIGH
      then response\<lparr>confidence_score := 1, risk_level := LOW\<rparr> else response)"

definition node_semantic_override :: "AgentState \<Rightarrow> exn + update" where
  "node_semantic_override s =
     (case analysis s of
        None \<Rightarrow> Inr no_update
      | Some EmptyDict \<Rightarrow> Inr no_update
      | Some analysis_dict \<Rightarrow>
          (case parse_analysis analysis_dict of
             Inl e \<Rightarrow> Inl (ValidationError e)
           | Inr response \<Rightarrow>
               (let q_lower = lower (user_query s);
                    is_definition_query = definition_query q_lower;
                    response = domain_override (domain s) q_lower response;
                    response = definition_override is_definition_query response
                in Inr (no_update\<lparr>u_analysis := Some (Dumped response)\<rparr>))))"

subsection \<open>Governance (governance/engine.py, governance/decision.py)\<close>

datatype DecisionStatus = AUTO_APPROVED | REVIEW_REQUIRED | BLOCKED

record GovernanceDecision =
  status :: DecisionStatus
  reason :: string
  confidence :: rat
  gd_risk_level :: string

definition classify_decision :: "collab \<Rightarrow> rat \<Rightarrow> string \<Rightarrow> bool \<Rightarrow> GovernanceDecision" where
  "classify_decision K conf risk requires_refusal =
     (if requires_refusal then
        \<lparr>status = BLOCKED, reason = ''Response flagged as policy violation or refusal required.'',
         confidence = conf, gd_risk_level = risk\<rparr>
      else if risk = ''critical'' then
        \<lparr>status = REVIEW_REQUIRED,
         reason = ''Critical risk topic (e.g., Penalties) mandates human oversight.'',
         confidence = conf, gd_risk_level = risk\<rparr>
      else if conf < 75 / 100 then
        \<lparr>status = REVIEW_REQUIRED, reason = ''Low model confidence ('' @ fmt_2f K conf @ '').'',
         confidence = conf, gd_risk_level = risk\<rparr>
      else
        \<lparr>status = AUTO_APPROVED,
         reason = ''Confidence and risk levels within safe autonomous limits.'',
         confidence = conf, gd_risk_level = risk\<rparr>)"

definition node_governance :: "collab \<Rightarrow> AgentState \<Rightarrow> exn + update" where
  "node_governance K s =
     (case analysis s of
        None \<Rightarrow> Inr (no_update\<lparr>u_final_response := Some (dict_of [(''type'', JStr ''error''),
                  (''message'', JStr ''No analysis for governance.'')])\<rparr>)
      | Some EmptyDict \<Rightarrow> Inr (no_update\<lparr>u_final_response := Some (dict_of [(''type'', JStr ''error''),
                  (''message'', JStr ''No analysis for governance.'')])\<rparr>)
      | Some analysis_dict \<Rightarrow>
          (case parse_analysis analysis_dict of
             Inl e \<Rightarrow> Inl (ValidationError e)
           | Inr response \<Rightarrow>
               if needs_clarification response then
                 Inr (no_update\<lparr>u_final_response := Some (model_dump response)\<rparr>)
               else
                 (let decision = classify_decision K (confidence_score response)
                                   (risk_value (risk_level response)) False in
                  if status decision = BLOCKED then
                    Inr (no_update\<lparr>u_final_response := Some (dict_of [(''type'', JStr ''blocked''),
                      (''reason'', JStr (reason decision))])\<rparr>)
                  else if status decision = REVIEW_REQUIRED then
                    Inr (no_update\<lparr>u_final_response := Some (dict_of
                      ([(''type'', JStr ''review_required''),
                        (''reason'', JStr (reason decision)),
                        (''risk_level'', JStr (gd_risk_level decision)),
                        (''confidence'', JNum (confidence decision))] @ model_dump response))\<rparr>)
                  else Inr (no_update\<lparr>u_final_response := Some (model_dump response)\<rparr>))))"

subsection \<open>Tool executor (agent/tools.py)\<close>

type_synonym tool_registry = "string \<rightharpoonup> (pydict \<Rightarrow> string + string)"

definition execute_tool_call :: "tool_registry \<Rightarrow> string \<Rightarrow> pydict \<Rightarrow> string" where
  "execute_tool_call registry tool_name arguments =
     (case registry tool_name of
        None \<Rightarrow> ''Error: Unknown tool '' @ [CHR 0x27] @ tool_name @ [CHR 0x27]
      | Some func \<Rightarrow>
          (case func arguments of
             Inr result \<Rightarrow> result
           | Inl e \<Rightarrow> ''Error executing tool '' @ [CHR 0x27] @ tool_name @ [CHR 0x27] @ '': '' @ e))"

definition node_tool_executor :: "tool_registry \<Rightarrow> AgentState \<Rightarrow> update" where
  "node_tool_executor registry s =
     no_update\<lparr>
       u_messages := Some (map (\<lambda>tc. \<lparr>role = ''tool'',
          content = execute_tool_call registry (tc_name tc) (tc_arguments tc),
          name = Some (tc_name tc)\<rparr>) (tool_calls s)),
       u_tool_calls := Some []\<rparr>"

subsection \<open>Fallback\<close>

definition cross :: string where
  "cross = [CHR 0xE2, CHR 0x9D, CHR 0x8C]"

definition node_fallback :: "collab \<Rightarrow> AgentState \<Rightarrow> update" where
  "node_fallback K s =
     (let errors = validation_errors s in
      no_update\<lparr>u_final_response := Some (dict_of [(''type'', JStr ''error''),
        (''message'', JStr (cross @ '' Analysis failed after '' @ str_int (retry_count s)
           @ '' retries. Last errors: '' @ repr_list K errors))])\<rparr>)"

section \<open>The graph (agent/graph.py)\<close>

text \<open>
  The state a turn starts from (\<open>run_graph\<close>, \<open>stream_graph\<close>). \<open>history\<close> is the
  \<open>messages\<close> channel restored from the checkpoint of the thread, to which the input's
  empty list is added; every other key is overwritten by the input.
\<close>

definition initial_state :: "message list \<Rightarrow> string \<Rightarrow> string \<Rightarrow> string \<Rightarrow> string list option
    \<Rightarrow> AgentState" where
  "initial_state history query domain_name tid selections = \<lparr>
     messages = history @ [],
     user_query = query,
     domain = domain_name,
     retrieved_context = [],
     analysis = None,
     validation_errors = [],
     retry_count = 0,
     route = [],
     tool_calls = [],
     final_response = None,
     thread_id = tid,
     clarification_options = None,
     user_selections = selections\<rparr>"

text \<open>
  One step of the compiled graph: the node at hand runs on the state, its update is merged,
  and the edge out of the node (for a conditional edge, the router applied to the merged
  state) gives the next node. What the external collaborators answer is not determined by the
  state, so a step exists for every answer. A node that raises has no step: the exception
  leaves the graph.
\<close>

inductive step :: "collab \<Rightarrow> node \<times> AgentState \<Rightarrow> node \<times> AgentState \<Rightarrow> bool" for K where
  guardrail: "s' = merge s (node_guardrail s) \<Longrightarrow> guardrail_edges (route_after_guardrail s') = Some n
     \<Longrightarrow> step K (Guardrail, s) (n, s')"
| chat: "node_chat K gc s = (tried, Inr u) \<Longrightarrow> step K (Chat, s) (END, merge s u)"
| retrieve: "node_retrieve K hybrid_search search_lawsuits s = Inr u
     \<Longrightarrow> step K (Retrieve, s) (Clarify, merge s u)"
| clarify: "node_clarify K gc s = (tried, u) \<Longrightarrow> s' = merge s u
     \<Longrightarrow> clarify_edges (route_after_clarify s') = Some n \<Longrightarrow> step K (Clarify, s) (n, s')"
| llm: "node_llm K gc s = (tried, u) \<Longrightarrow> s' = merge s u
     \<Longrightarrow> llm_edges (route_after_llm s') = Some n \<Longrightarrow> step K (Llm, s) (n, s')"
| tool_executor: "step K (ToolExecutor, s) (Llm, merge s (node_tool_executor registry s))"
| validator: "s' = merge s (node_validator K s)
     \<Longrightarrow> validator_edges (route_after_validation s') = Some n \<Longrightarrow> step K (Validator, s) (n, s')"
| semantic_override: "node_semantic_override s = Inr u
     \<Longrightarrow> step K (SemanticOverride, s) (Governance, merge s u)"
| governance: "node_governance K s = Inr u \<Longrightarrow> step K (Governance, s) (END, merge s u)"
| fallback: "step K (Fallback, s) (END, merge s (node_fallback K s))"

text \<open>The configurations a turn can pass through.\<close>

definition reachable :: "collab \<Rightarrow> AgentState \<Rightarrow> node \<times> AgentState \<Rightarrow> bool" where
  "reachable K s0 c = (step K)\<^sup>*\<^sup>* (Guardrail, s0) c"


section \<open>The search collaborators (retrieval/indexer.py, agent/tavily\_search.py)\<close>

text \<open>
  The indexer as the retrieve stage sets it up: \<open>ClauseIndexer()\<close> has no index, and
  \<open>build\<close> is called on the clauses of the corpus when there is at least one. The
  embedding model with the FAISS index and the BM25 scores are external: the labels that the
  index search answers (\<open>faiss_search\<close>) and the order in which \<open>np.argsort\<close> puts the
  indices of the scores (\<open>argsort_scores\<close>) are parameters. \<open>xs[-k:]\<close> is \<open>last_k\<close>,
  \<open>list(dict.fromkeys(xs))\<close> keeps the first occurrence of each index, and a list is read
  at a negative index from its end, with \<open>IndexError\<close> below \<open>-len\<close>.
\<close>

record ClauseIndexer =
  index_built :: bool
  metadata :: "hit list"

definition unbuilt :: ClauseIndexer where
  "unbuilt = \<lparr>index_built = False, metadata = []\<rparr>"

definition build :: "hit list \<Rightarrow> ClauseIndexer" where
  "build md = \<lparr>index_built = True, metadata = md\<rparr>"

definition corpus_metadata :: "collab \<Rightarrow> hit list" where
  "corpus_metadata K =
     concat (map (\<lambda>art. map (\<lambda>(cid, txt).
         \<lparr>hit_article_id = article_id art, hit_clause_id = cid, hit_text = txt\<rparr>) (clauses art))
       (articles K))"

definition corpus_indexer :: "collab \<Rightarrow> ClauseIndexer" where
  "corpus_indexer K = (if corpus_metadata K \<noteq> [] then build (corpus_metadata K) else unbuilt)"

definition last_k :: "nat \<Rightarrow> 'a list \<Rightarrow> 'a list" where
  "last_k k xs = (if k = 0 then xs else drop (length xs - k) xs)"

definition fromkeys :: "'a list \<Rightarrow> 'a list" where
  "fromkeys xs = rev (remdups (rev xs))"

fun recover :: "hit list \<Rightarrow> int list \<Rightarrow> exn + hit list" where
  "recover md [] = Inr []"
| "recover md (idx # rest) =
     (if idx < int (length md) then
        (if idx < - int (length md) then Inl IndexError
         else
           (case recover md rest of
              Inl e \<Rightarrow> Inl e
            | Inr found \<Rightarrow> Inr (md ! nat (if idx < 0 then int (length md) + idx else idx) # found)))
      else recover md rest)"

definition indexer_hybrid_search :: "ClauseIndexer \<Rightarrow> (string \<Rightarrow> nat \<Rightarrow> int list) \<Rightarrow> (string \<Rightarrow> nat list)
    \<Rightarrow> string \<Rightarrow> nat \<Rightarrow> exn + hit list" where
  "indexer_hybrid_search ix faiss_search argsort_scores query k =
     (if \<not> index_built ix then Inl IndexNotBuilt
      else
        (let dense_hits = faiss_search query k;
             sparse_hits = map int (last_k k (argsort_scores query));
             combined_indices = fromkeys (dense_hits @ sparse_hits) in
         case recover (metadata ix) combined_indices of
           Inl e \<Rightarrow> Inl e
         | Inr found \<Rightarrow> Inr (take k found)))"

text \<open>
  The lawsuit search: the Tavily client is absent when no API key is set; its \<open>search\<close>
  raises (\<open>Inl\<close> the text of the exception) or returns a response, whose \<open>answer\<close> and
  \<open>results\<close> keys may be missing.
\<close>

record tavily_result =
  tr_title :: string
  tr_content :: string
  tr_url :: string

record tavily_response =
  tv_answer :: "string option"
  tv_results :: "tavily_result list option"

definition warn :: string where
  "warn = [CHR 0xE2, CHR 0x9A, CHR 0xA0, CHR 0xEF, CHR 0xB8, CHR 0x8F]"

definition searcher_search_lawsuits :: "(string \<Rightarrow> string + tavily_response) option \<Rightarrow> string \<Rightarrow> string" where
  "searcher_search_lawsuits client query =
     (case client of
        None \<Rightarrow> cross @ '' Error: Tavily API Key missing. Cannot perform external search.''
      | Some search \<Rightarrow>
          (case search (''legal lawsuit court case '' @ query) of
             Inl e \<Rightarrow> warn @ '' Search Error: '' @ e
           | Inr response \<Rightarrow>
               join (nl @ nl)
                 ((case tv_answer response of
                     None \<Rightarrow> []
                   | Some a \<Rightarrow> if a \<noteq> [] then [''**AI Overview:** '' @ a] else [])
                  @ map (\<lambda>res. ''- **'' @ tr_title res @ ''**: '' @ take 300 (tr_content res)
                          @ ''... [Source]('' @ tr_url res @ '')'')
                      (case tv_results response of None \<Rightarrow> [] | Some rs \<Rightarrow> rs))))"

section \<open>The discriminator of a final response\<close>

text \<open>The value under the key \<open>type\<close> of a final response, when it is a string.\<close>

definition result_type :: "pydict \<Rightarrow> string option" where
  "result_type fr = (case map_of fr ''type'' of Some (JStr t) \<Rightarrow> Some t | _ \<Rightarrow> None)"

section \<open>Invariant of a turn and a concrete run\<close>

text \<open>
  What holds in every configuration of a turn: the retry counter stays within its bound and
  is below it wherever another validation can follow, no tool call is pending, and the
  validator only sees an analysis that the LLM stage has just dumped.
\<close>

definition turn_inv :: "node \<times> AgentState \<Rightarrow> bool" where
  "turn_inv c = (case c of (n, s) \<Rightarrow>
     0 \<le> retry_count s \<and> retry_count s \<le> 3 \<and> tool_calls s = [] \<and> n \<noteq> ToolExecutor
     \<and> (n \<notin> {SemanticOverride, Governance, Fallback, END} \<longrightarrow> retry_count s \<le> 2)
     \<and> (n = Validator \<longrightarrow> (\<exists>r. analysis s = Some (Dumped r))))"

text \<open>
  What holds of the final response in every configuration of a turn: it is absent, typed, or
  a dumped analysis record; it is present at the end; and the LLM stage and the validator
  are entered with a route other than \<open>"blocked"\<close>.
\<close>

definition result_inv :: "node \<times> AgentState \<Rightarrow> bool" where
  "result_inv c = (case c of (n, s) \<Rightarrow>
     (\<forall>fr. final_response s = Some fr \<longrightarrow>
        result_type fr \<in> Some ` set [''chat'', ''error'', ''clarification'', ''review_required'']
        \<or> (\<exists>r. fr = model_dump r))
     \<and> (n = END \<longrightarrow> final_response s \<noteq> None)
     \<and> (n \<in> {Llm, Validator, ToolExecutor} \<longrightarrow> route s \<noteq> ''blocked''))"

text \<open>
  A concrete turn, used to instantiate the theorems: a CCPA definition query about a fine,
  answered by a model whose low-risk analysis the rule check rejects.
\<close>

definition demo_collab :: collab where
  "demo_collab = \<lparr>json_dumps = (\<lambda>d. ''{}''), repr_list = join '', '', fmt_2f = (\<lambda>x. ''0.00''),
     prompt_gdpr = ''GDPR prompt'', prompt_fda = ''FDA prompt'', prompt_ccpa = ''CCPA prompt'',
     chat_persona = ''persona'', clarify_prompt = ''clarify'',
     validate_response = (\<lambda>response query. if risk_level response = LOW
        then [''Risk Signal: Risk cannot be LOW.''] else []),
     articles = [\<lparr>article_id = ''83'', title = Some ''General conditions for imposing administrative fines'',
        clauses = [(''1'', ''Each supervisory authority shall ensure that fines are effective.'')]\<rparr>]\<rparr>"

definition demo_response :: ComplianceResponse where
  "demo_response = \<lparr>summary = ''A fine may be imposed.'', needs_clarification = False,
     missing_preconditions = [], legal_basis = ''Article 83'', scope_limitation = ''N/A'',
     risk_analysis = ''Fines.'', risk_level = LOW, confidence_score = 8 / 10,
     references_field = Some [], reasoning_map = []\<rparr>"

definition demo_clients :: "llm_out llm_clients" where
  "demo_clients = \<lparr>base_create = (\<lambda>m ms t. Inl ''unused''),
     instructor_create = (\<lambda>m ms t. Inr (Structured demo_response)), models = [''model-a'']\<rparr>"

definition demo_s0 :: AgentState where
  "demo_s0 = initial_state [] ''explain the fine'' ''CCPA'' ''t1'' None"

definition demo_s1 :: AgentState where
  "demo_s1 = merge demo_s0 (node_guardrail demo_s0)"

definition demo_s2 :: AgentState where
  "demo_s2 = merge demo_s1 (no_update\<lparr>u_retrieved_context := Some
          ''Source: CCPA/CPRA Legal Statutes (Modeled Knowledge - Statutory Exception Active).''\<rparr>)"

definition demo_s3 :: AgentState where
  "demo_s3 = merge demo_s2 clear"

definition demo_s4 :: AgentState where
  "demo_s4 = merge demo_s3 (snd (node_llm demo_collab (Inr demo_clients) demo_s3))"

definition demo_s5 :: AgentState where
  "demo_s5 = merge demo_s4 (node_validator demo_collab demo_s4)"

text \<open>
  Clients whose first model is rate limited, whose second model answers with a schema
  mismatch and whose third model answers; a retrieval result that omits Article 83; a state
  with a dumped analysis for a CCPA definition query; clients for the clarification call.
\<close>

definition demo_flaky :: "llm_out llm_clients" where
  "demo_flaky = \<lparr>base_create = (\<lambda>m ms t. Inl ''unused''),
     instructor_create = (\<lambda>m ms t.
        if m = ''model-a'' then Inl ''Rate limit reached''
        else if m = ''model-b'' then Inl ''1 Validation Error for ComplianceResponse''
        else Inr (Structured demo_response)),
     models = [''model-a'', ''model-b'', ''model-c'']\<rparr>"

definition demo_hits :: "hit list" where
  "demo_hits = [\<lparr>hit_article_id = ''33'', hit_clause_id = ''1'',
     hit_text = ''In the case of a personal data breach, the controller shall notify.''\<rparr>]"

definition demo_s7 :: AgentState where
  "demo_s7 = (initial_state [] ''What is the sale of personal information?'' ''CCPA'' ''t1'' None)
     \<lparr>analysis := Some (Dumped demo_response)\<rparr>"

definition demo_clarify_clients :: "ClarificationResponse llm_clients" where
  "demo_clarify_clients = \<lparr>base_create = (\<lambda>m ms t. Inl ''unused''),
     instructor_create = (\<lambda>m ms t. Inr \<lparr>cr_needs_clarification = True, cr_summary = ''It depends.'',
        cr_options = [\<lparr>opt_id = ''opt_1'', opt_text = ''Was the data encrypted?'', opt_rank = 1\<rparr>]\<rparr>),
     models = [''model-a'']\<rparr>"

definition demo_s8 :: AgentState where
  "demo_s8 = initial_state [] ''We lost patient data'' ''GDPR'' ''t1'' (Some [''The data was encrypted''])"

text \<open>
  The update of the retrieve stage on an empty index search, and the query of the guardrail
  scenario.
\<close>

definition insufficient :: update where
  "insufficient = no_update\<lparr>u_retrieved_context := Some [],
     u_final_response := Some (dict_of [(''type'', JStr ''error''),
        (''message'', JStr ''Insufficient context found.'')]),
     u_route := Some ''blocked''\<rparr>"

definition demo_blocked :: AgentState where
  "demo_blocked = initial_state [] ''how can i hide a data breach'' ''GDPR'' ''t1'' None"

text \<open>
  Answers of the search collaborators: an index search that hands over the hit on Article
  33 and one that hands over nothing; labels and score order for the one-clause corpus; a
  lawsuit search with one result and one with none. Then an FDA query about a fine, an FDA
  query answered by the empty lawsuit search, and a GDPR query at the retrieve stage.
\<close>

definition demo_search :: "string \<Rightarrow> nat \<Rightarrow> exn + hit list" where
  "demo_search q k = Inr demo_hits"

definition demo_no_hits :: "string \<Rightarrow> nat \<Rightarrow> exn + hit list" where
  "demo_no_hits q k = Inr []"

definition demo_faiss :: "string \<Rightarrow> nat \<Rightarrow> int list" where
  "demo_faiss q k = 0 # replicate (k - 1) (- 1)"

definition demo_argsort :: "string \<Rightarrow> nat list" where
  "demo_argsort q = [0]"

definition demo_tavily :: "string \<Rightarrow> string + tavily_response" where
  "demo_tavily q = Inr \<lparr>tv_answer = None, tv_results = Some
     [\<lparr>tr_title = ''United States v. Acme Pharma'',
       tr_content = ''The court imposed a civil penalty for misbranded drugs.'',
       tr_url = ''https://example.org/acme''\<rparr>]\<rparr>"

definition demo_tavily_empty :: "string \<Rightarrow> string + tavily_response" where
  "demo_tavily_empty q = Inr \<lparr>tv_answer = None, tv_results = Some []\<rparr>"

definition demo_f0 :: AgentState where
  "demo_f0 = initial_state [] ''What is the maximum fine for misbranding?'' ''FDA'' ''t1'' None"

definition demo_f1 :: AgentState where
  "demo_f1 = merge demo_f0 (node_guardrail demo_f0)"

definition demo_c0 :: AgentState where
  "demo_c0 = initial_state [] ''explain recent drug recall lawsuits'' ''FDA'' ''t1'' None"

definition demo_c1 :: AgentState where
  "demo_c1 = merge demo_c0 (node_guardrail demo_c0)"

definition demo_c2 :: AgentState where
  "demo_c2 = merge demo_c1 (no_update\<lparr>u_retrieved_context := Some []\<rparr>)"

definition demo_c3 :: AgentState where
  "demo_c3 = merge demo_c2 clear"

definition demo_g1 :: AgentState where
  "demo_g1 = merge (initial_state [] ''What is the maximum fine?'' ''GDPR'' ''t1'' None)
     (node_guardrail (initial_state [] ''What is the maximum fine?'' ''GDPR'' ''t1'' None))"

section \<open>What each node writes\<close>

lemma merge_simps:
  "retry_count (merge s u) = (case u_retry_count u of None \<Rightarrow> retry_count s | Some n \<Rightarrow> n)"
  "tool_calls (merge s u) = (case u_tool_calls u of None \<Rightarrow> tool_calls s | Some t \<Rightarrow> t)"
  "route (merge s u) = (case u_route u of None \<Rightarrow> route s | Some r \<Rightarrow> r)"
  "analysis (merge s u) = (case u_analysis u of None \<Rightarrow> analysis s | Some a \<Rightarrow> Some a)"
  "validation_errors (merge s u) = (case u_validation_errors u of None \<Rightarrow> validation_errors s | Some e \<Rightarrow> e)"
  "final_response (merge s u) = (case u_final_response u of None \<Rightarrow> final_response s | Some f \<Rightarrow> Some f)"
  "user_query (merge s u) = user_query s"
  "domain (merge s u) = domain s"
  "user_selections (merge s u) = user_selections s"
  by (simp_all add: merge_def)

lemma guardrail_frame:
  "u_retry_count (node_guardrail s) = None" "u_tool_calls (node_guardrail s) = None"
  "u_analysis (node_guardrail s) = None" "u_validation_errors (node_guardrail s) = None"
  by (simp_all add: node_guardrail_def Let_def no_update_def)

lemma chat_frame:
  assumes "node_chat K gc s = (tried, Inr u)"
  shows "u_retry_count u = None" "u_tool_calls u = None" "u_route u = None"
  using assms
  by (auto simp: node_chat_def Let_def no_update_def split: sum.splits list.splits prod.splits)

lemma retrieve_frame:
  assumes "node_retrieve K hs sl s = Inr u"
  shows "u_retry_count u = None" "u_tool_calls u = None"
  using assms
  by (auto simp: node_retrieve_def Let_def no_update_def split: sum.splits if_splits)

lemma clarify_frame:
  assumes "node_clarify K gc s = (tried, u)"
  shows "u_retry_count u = None" "u_tool_calls u = None" "u_route u \<noteq> None"
  using assms
  by (auto simp: node_clarify_def Let_def no_update_def clear_def
      split: sum.splits list.splits prod.splits option.splits if_splits)

lemma llm_frame:
  assumes "node_llm K gc s = (tried, u)"
  shows "u_retry_count u = None" "u_tool_calls u = None"
    "u_route u = Some ''blocked'' \<or> (u_route u = None \<and> (\<exists>r. u_analysis u = Some (Dumped r)))"
  using assms
  by (auto simp: node_llm_def Let_def no_update_def llm_error_def
      split: sum.splits prod.splits llm_out.splits)

lemma tool_executor_frame:
  "u_retry_count (node_tool_executor reg s) = None" "u_tool_calls (node_tool_executor reg s) = Some []"
  by (simp_all add: node_tool_executor_def no_update_def)

lemma validator_frame:
  "u_tool_calls (node_validator K s) = None"
  "u_retry_count (node_validator K s) = None \<or> u_retry_count (node_validator K s) = Some (retry_count s + 1)"
  by (auto simp: node_validator_def Let_def no_update_def no_analysis_def
      split: option.splits analysis_dict.splits sum.splits)

lemma validator_parsed:
  assumes "analysis s = Some (Dumped r)"
  shows "u_validation_errors (node_validator K s) = Some (validate_response K r (user_query s))"
    "u_retry_count (node_validator K s)
       = (if validate_response K r (user_query s) \<noteq> [] then Some (retry_count s + 1) else None)"
  using assms by (auto simp: node_validator_def Let_def no_update_def)

lemma semantic_override_frame:
  assumes "node_semantic_override s = Inr u"
  shows "u_retry_count u = None" "u_tool_calls u = None"
  using assms
  by (auto simp: node_semantic_override_def Let_def no_update_def
      split: option.splits analysis_dict.splits sum.splits)

lemma governance_frame:
  assumes "node_governance K s = Inr u"
  shows "u_retry_count u = None" "u_tool_calls u = None"
  using assms
  by (auto simp: node_governance_def Let_def no_update_def
      split: option.splits analysis_dict.splits sum.splits if_splits)

lemma fallback_frame:
  "u_retry_count (node_fallback K s) = None" "u_tool_calls (node_fallback K s) = None"
  by (simp_all add: node_fallback_def Let_def no_update_def)

lemma edges_cases:
  "guardrail_edges x = Some n \<Longrightarrow> n \<in> {END, Chat, Retrieve}"
  "clarify_edges x = Some n \<Longrightarrow> n \<in> {END, Llm}"
  by (auto simp: guardrail_edges_def clarify_edges_def split: if_splits)

lemma llm_edges_validator:
  "llm_edges (route_after_llm s) = Some n \<Longrightarrow> tool_calls s = [] \<Longrightarrow>
     (n = END \<and> route s = ''blocked'') \<or> (n = Validator \<and> route s \<noteq> ''blocked'')"
  by (auto simp: llm_edges_def route_after_llm_def split: if_splits)

lemma validator_edges_cases:
  "validator_edges (route_after_validation s) = Some n \<Longrightarrow>
     (n = SemanticOverride \<and> validation_errors s = [])
     \<or> (n = Llm \<and> validation_errors s \<noteq> [] \<and> retry_count s < 3)
     \<or> (n = Fallback \<and> validation_errors s \<noteq> [] \<and> 3 \<le> retry_count s)"
  by (auto simp: validator_edges_def route_after_validation_def split: if_splits)

lemma step_retry_count:
  assumes "step K (n, s) (n', s')"
  shows "retry_count s' = retry_count s \<or> (n = Validator \<and> retry_count s' = retry_count s + 1)"
  using assms
proof (cases rule: step.cases)
  case (validator) then show ?thesis using validator_frame(2)[of K s] by (auto simp: merge_simps)
qed (auto simp: merge_simps guardrail_frame chat_frame retrieve_frame clarify_frame llm_frame
      tool_executor_frame semantic_override_frame governance_frame fallback_frame)

lemma turn_inv_step:
  assumes "turn_inv c" "step K c c'"
  shows "turn_inv c'"
  using assms(2,1)
proof (cases rule: step.cases)
  case (guardrail s' s n)
  then show ?thesis using assms(1) edges_cases(1)[of _ n]
    by (auto simp: turn_inv_def merge_simps guardrail_frame)
next
  case (chat gc s tried u)
  then show ?thesis using assms(1) by (auto simp: turn_inv_def merge_simps chat_frame)
next
  case (retrieve hs sl s u)
  then show ?thesis using assms(1) by (auto simp: turn_inv_def merge_simps retrieve_frame)
next
  case (clarify gc s tried u s' n)
  then show ?thesis using assms(1) edges_cases(2)[of _ n]
    by (auto simp: turn_inv_def merge_simps clarify_frame)
next
  case (llm gc s tried u s' n)
  have tc: "tool_calls s' = []" using llm assms(1) by (simp add: turn_inv_def merge_simps llm_frame)
  from llm_edges_validator[OF llm(5) tc] llm_frame(3)[OF llm(3)]
  show ?thesis using llm assms(1) tc
    by (auto simp: turn_inv_def merge_simps llm_frame(1,2))
next
  case (tool_executor s registry)
  then show ?thesis using assms(1) by (simp add: turn_inv_def)
next
  case (validator s' s n)
  obtain r where r: "analysis s = Some (Dumped r)" using validator assms(1) by (auto simp: turn_inv_def)
  from validator_edges_cases[OF validator(4)] validator_parsed[OF r, of K]
  show ?thesis using validator assms(1)
    by (auto simp: turn_inv_def merge_simps validator_frame(1) split: if_splits)
next
  case (semantic_override s u)
  then show ?thesis using assms(1) by (auto simp: turn_inv_def merge_simps semantic_override_frame)
next
  case (governance s u)
  then show ?thesis using assms(1) by (auto simp: turn_inv_def merge_simps governance_frame)
next
  case (fallback s)
  then show ?thesis using assms(1) by (auto simp: turn_inv_def merge_simps fallback_frame)
qed

lemma turn_inv_reachable:
  assumes "reachable K (initial_state h q d t sel) c"
  shows "turn_inv c"
  using assms unfolding reachable_def
proof (induction rule: rtranclp_induct)
  case base
  then show ?case by (simp add: turn_inv_def initial_state_def)
next
  case (step y z)
  then show ?case using turn_inv_step by blast
qed

section \<open>The concrete run\<close>

lemma demo_step1: "step demo_collab (Guardrail, demo_s0) (Retrieve, demo_s1)"
proof (rule step.guardrail)
  show "demo_s1 = merge demo_s0 (node_guardrail demo_s0)" by (simp add: demo_s1_def)
  show "guardrail_edges (route_after_guardrail demo_s1) = Some Retrieve" by code_simp
qed

lemma demo_step2: "step demo_collab (Retrieve, demo_s1) (Clarify, demo_s2)"
  unfolding demo_s2_def
proof (rule step.retrieve)
  show "node_retrieve demo_collab (\<lambda>q k. Inr []) (\<lambda>q. []) demo_s1 = Inr (no_update\<lparr>u_retrieved_context := Some
          ''Source: CCPA/CPRA Legal Statutes (Modeled Knowledge - Statutory Exception Active).''\<rparr>)"
    by code_simp
qed

lemma demo_step3: "step demo_collab (Clarify, demo_s2) (Llm, demo_s3)"
proof (rule step.clarify)
  show "node_clarify demo_collab (Inl ''no key'') demo_s2 = ([], clear)" by code_simp
  show "demo_s3 = merge demo_s2 clear" by (simp add: demo_s3_def)
  show "clarify_edges (route_after_clarify demo_s3) = Some Llm" by code_simp
qed

lemma demo_step4: "step demo_collab (Llm, demo_s3) (Validator, demo_s4)"
proof (rule step.llm)
  show "node_llm demo_collab (Inr demo_clients) demo_s3
      = (fst (node_llm demo_collab (Inr demo_clients) demo_s3), snd (node_llm demo_collab (Inr demo_clients) demo_s3))"
    by simp
  show "demo_s4 = merge demo_s3 (snd (node_llm demo_collab (Inr demo_clients) demo_s3))"
    by (simp add: demo_s4_def)
  show "llm_edges (route_after_llm demo_s4) = Some Validator" by code_simp
qed

lemma demo_step5: "step demo_collab (Validator, demo_s4) (Llm, demo_s5)"
proof (rule step.validator)
  show "demo_s5 = merge demo_s4 (node_validator demo_collab demo_s4)" by (simp add: demo_s5_def)
  show "validator_edges (route_after_validation demo_s5) = Some Llm" by code_simp
qed

lemma demo_reach_validator: "reachable demo_collab demo_s0 (Validator, demo_s4)"
  unfolding reachable_def
  using demo_step1 demo_step2 demo_step3 demo_step4
  by (meson rtranclp.rtrancl_into_rtrancl rtranclp.rtrancl_refl)

lemma demo_errors: "validation_errors demo_s5 \<noteq> []" "retry_count demo_s4 = 0" "retry_count demo_s5 = 1"
  by code_simp+

section \<open>Routing after validation\<close>

text \<open>
  Claim C1. For every state that reaches the router of the validator: with no validation
  errors the next stage is the semantic override; with errors and \<open>retry_count < 3\<close> it is
  the LLM stage; with errors and \<open>retry_count \<ge> 3\<close> it is the fallback. The router has no
  other outcome.
\<close>

theorem route_after_validation_total:
  "(validation_errors s = [] \<longrightarrow>
      validator_edges (route_after_validation s) = Some SemanticOverride)
   \<and> (validation_errors s \<noteq> [] \<and> retry_count s < 3 \<longrightarrow>
      validator_edges (route_after_validation s) = Some Llm)
   \<and> (validation_errors s \<noteq> [] \<and> retry_count s \<ge> 3 \<longrightarrow>
      validator_edges (route_after_validation s) = Some Fallback)
   \<and> validator_edges (route_after_validation s) \<in> {Some SemanticOverride, Some Llm, Some Fallback}"
  by (simp add: route_after_validation_def validator_edges_def)

theorem route_after_validation_total_witness:
  "validator_edges (route_after_validation (initial_state [] ''q'' ''GDPR'' ''t'' None))
     = Some SemanticOverride
   \<and> validator_edges (route_after_validation
        ((initial_state [] ''q'' ''GDPR'' ''t'' None)\<lparr>validation_errors := [''err''], retry_count := 1\<rparr>))
     = Some Llm
   \<and> validator_edges (route_after_validation
        ((initial_state [] ''q'' ''GDPR'' ''t'' None)\<lparr>validation_errors := [''err''], retry_count := 3\<rparr>))
     = Some Fallback"
  using route_after_validation_total [of "initial_state [] ''q'' ''GDPR'' ''t'' None"]
    route_after_validation_total [of "(initial_state [] ''q'' ''GDPR'' ''t'' None)\<lparr>validation_errors := [''err''], retry_count := 1\<rparr>"]
    route_after_validation_total [of "(initial_state [] ''q'' ''GDPR'' ''t'' None)\<lparr>validation_errors := [''err''], retry_count := 3\<rparr>"]
  by (simp add: initial_state_def)

section \<open>The retry counter\<close>

text \<open>
  Claim C2. Within one turn, started from the initial state with \<open>retry_count = 0\<close>, the
  retry counter never decreases and is never reset: a step of the validator that leaves
  validation errors increments it by one, and every other step leaves it as it is. In every
  reachable state \<open>retry_count \<le> 3\<close>.
\<close>

theorem retry_count_bounded_monotone:
  assumes "reachable K (initial_state history query domain_name tid selections) (n, s)"
  shows "0 \<le> retry_count s \<and> retry_count s \<le> 3
    \<and> (\<forall>n' s'. step K (n, s) (n', s') \<longrightarrow>
          (if n = Validator \<and> validation_errors s' \<noteq> []
           then retry_count s' = retry_count s + 1 else retry_count s' = retry_count s))"
proof -
  have inv: "turn_inv (n, s)" using assms by (rule turn_inv_reachable)
  have "retry_count s' = (if n = Validator \<and> validation_errors s' \<noteq> []
           then retry_count s + 1 else retry_count s)" if st: "step K (n, s) (n', s')" for n' s'
  proof (cases "n = Validator")
    case False
    then show ?thesis using step_retry_count[OF st] by auto
  next
    case True
    then obtain r where r: "analysis s = Some (Dumped r)" using inv by (auto simp: turn_inv_def)
    from st True have "s' = merge s (node_validator K s)" by (auto elim: step.cases)
    then show ?thesis using True validator_parsed[OF r, of K] by (simp add: merge_simps)
  qed
  then show ?thesis using inv by (auto simp: turn_inv_def)
qed

theorem retry_count_bounded_monotone_witness:
  "reachable demo_collab demo_s0 (Validator, demo_s4)
   \<and> step demo_collab (Validator, demo_s4) (Llm, demo_s5)
   \<and> validation_errors demo_s5 \<noteq> [] \<and> retry_count demo_s4 = 0 \<and> retry_count demo_s5 = 1"
proof -
  have r: "reachable demo_collab (initial_state [] ''explain the fine'' ''CCPA'' ''t1'' None)
     (Validator, demo_s4)"
    using demo_reach_validator by (simp add: demo_s0_def)
  from retry_count_bounded_monotone [OF r] demo_step5 demo_errors(1)
  have "retry_count demo_s5 = retry_count demo_s4 + 1" by auto
  then show ?thesis using demo_reach_validator demo_step5 demo_errors(1,2) by simp
qed

section \<open>The guardrail block\<close>

text \<open>
  Claim C3. For every query whose lower-cased text contains a disallowed-intent pattern, the
  guardrail sets \<open>route = "blocked"\<close> and a complete final response, and the turn ends
  there: the only configurations of the turn are the guardrail and the end, so neither the
  retrieve stage nor the LLM stage runs.
\<close>

theorem guardrail_block_terminates:
  assumes "any_in unethical_keywords (lower (user_query s))"
  shows "u_route (node_guardrail s) = Some ''blocked''
     \<and> u_final_response (node_guardrail s) = Some (model_dump blocked_response)
     \<and> step K (Guardrail, s) (END, merge s (node_guardrail s))
     \<and> (\<forall>c. reachable K s c \<longrightarrow>
           (c = (Guardrail, s) \<or> c = (END, merge s (node_guardrail s)))
           \<and> fst c \<noteq> Retrieve \<and> fst c \<noteq> Llm)"
proof -
  let ?s' = "merge s (node_guardrail s)"
  have u: "u_route (node_guardrail s) = Some ''blocked''"
    "u_final_response (node_guardrail s) = Some (model_dump blocked_response)"
    using assms by (simp_all add: node_guardrail_def Let_def no_update_def)
  have e: "guardrail_edges (route_after_guardrail ?s') = Some END"
    using u by (simp add: route_after_guardrail_def guardrail_edges_def merge_simps)
  have st: "step K (Guardrail, s) (END, ?s')"
    by (rule step.guardrail [OF refl e])
  have "c = (Guardrail, s) \<or> c = (END, ?s')" if "reachable K s c" for c
    using that unfolding reachable_def
  proof (induction rule: rtranclp_induct)
    case base
    then show ?case by simp
  next
    case (step y z)
    from step.IH show ?case
    proof
      assume "y = (Guardrail, s)"
      with step.hyps(2) e show ?thesis by (auto elim: step.cases)
    next
      assume "y = (END, ?s')"
      with step.hyps(2) show ?thesis by (auto elim: step.cases)
    qed
  qed
  then show ?thesis using u st by auto
qed

theorem guardrail_block_terminates_witness:
  "any_in unethical_keywords (lower ''how can i hide a data breach'')
   \<and> reachable demo_collab (initial_state [] ''how can i hide a data breach'' ''GDPR'' ''t1'' None)
       (END, merge (initial_state [] ''how can i hide a data breach'' ''GDPR'' ''t1'' None)
          (node_guardrail (initial_state [] ''how can i hide a data breach'' ''GDPR'' ''t1'' None)))
   \<and> u_route (node_guardrail (initial_state [] ''how can i hide a data breach'' ''GDPR'' ''t1'' None))
       = Some ''blocked''"
proof -
  let ?s = "initial_state [] ''how can i hide a data breach'' ''GDPR'' ''t1'' None"
  have h: "any_in unethical_keywords (lower (user_query ?s))" by code_simp
  have k: "any_in unethical_keywords (lower ''how can i hide a data breach'')" by code_simp
  from guardrail_block_terminates [OF h, of demo_collab]
  have "step demo_collab (Guardrail, ?s) (END, merge ?s (node_guardrail ?s))"
    and "u_route (node_guardrail ?s) = Some ''blocked''" by simp_all
  then show ?thesis using k by (simp add: reachable_def)
qed

section \<open>Pending tool calls\<close>

text \<open>
  Claim C10. In a turn started from the initial state (\<open>tool_calls = []\<close>) no step writes a
  non-empty \<open>tool_calls\<close> list, and the LLM stage writes none whatever the model answers;
  hence \<open>route_after_llm\<close> never returns \<open>"tool_executor"\<close> and the tool executor is
  never reached.
\<close>

theorem tool_executor_unreachable:
  assumes "reachable K (initial_state history query domain_name tid selections) (n, s)"
  shows "tool_calls s = [] \<and> n \<noteq> ToolExecutor
     \<and> route_after_llm s \<noteq> ''tool_executor''
     \<and> u_tool_calls (snd (node_llm K gc s)) = None
     \<and> (\<forall>n' s'. step K (n, s) (n', s') \<longrightarrow> tool_calls s' = [] \<and> n' \<noteq> ToolExecutor)"
proof -
  have inv: "turn_inv (n, s)" using assms by (rule turn_inv_reachable)
  have "turn_inv (n', s')" if "step K (n, s) (n', s')" for n' s'
    using inv that by (rule turn_inv_step)
  moreover have "u_tool_calls (snd (node_llm K gc s)) = None"
    using llm_frame(2) [of K gc s "fst (node_llm K gc s)" "snd (node_llm K gc s)"] by simp
  ultimately show ?thesis using inv
    by (auto simp: turn_inv_def route_after_llm_def)
qed

theorem tool_executor_unreachable_witness:
  "reachable demo_collab demo_s0 (Llm, demo_s3) \<and> step demo_collab (Llm, demo_s3) (Validator, demo_s4)
   \<and> tool_calls demo_s3 = [] \<and> tool_calls demo_s4 = []
   \<and> route_after_llm demo_s4 \<noteq> ''tool_executor''"
proof -
  have r3: "reachable demo_collab (initial_state [] ''explain the fine'' ''CCPA'' ''t1'' None) (Llm, demo_s3)"
    using demo_step1 demo_step2 demo_step3 unfolding reachable_def demo_s0_def
    by (meson rtranclp.rtrancl_into_rtrancl rtranclp.rtrancl_refl)
  have r4: "reachable demo_collab (initial_state [] ''explain the fine'' ''CCPA'' ''t1'' None)
      (Validator, demo_s4)"
    using demo_reach_validator by (simp add: demo_s0_def)
  from tool_executor_unreachable [OF r3] demo_step4
  have "tool_calls demo_s3 = []" "tool_calls demo_s4 = []" by auto
  moreover from tool_executor_unreachable [OF r4]
  have "route_after_llm demo_s4 \<noteq> ''tool_executor''" by simp
  ultimately show ?thesis using r3 demo_step4 by (simp add: demo_s0_def)
qed

section \<open>Clarification already answered\<close>

lemma clarify_with_selections:
  assumes "user_selections s = Some (sel # sels)"
  shows "node_clarify K gc s =
      ([], no_update\<lparr>
         u_retrieved_context := Some (retrieved_context s @ nl @ nl @ ''[USER CLARIFICATION]'' @ nl
            @ join nl (map (\<lambda>x. ''- '' @ x) (sel # sels))),
         u_route := Some ''clear''\<rparr>)"
  unfolding node_clarify_def assms by (simp only: option.case list.case)

text \<open>
  Claim C4. For every state whose \<open>user_selections\<close> is a non-empty list, the clarify stage
  issues no generative call (its list of tried models is empty, whatever the clients are),
  appends the selections to \<open>retrieved_context\<close> under a user-clarification header, sets
  \<open>route = "clear"\<close>, and every step out of the stage leads to the LLM stage.
\<close>

theorem clarify_skips_with_selections:
  assumes "user_selections s = Some (sel # sels)"
  shows "node_clarify K gc s =
      ([], no_update\<lparr>
         u_retrieved_context := Some (retrieved_context s @ nl @ nl @ ''[USER CLARIFICATION]'' @ nl
            @ join nl (map (\<lambda>x. ''- '' @ x) (sel # sels))),
         u_route := Some ''clear''\<rparr>)
     \<and> route (merge s (snd (node_clarify K gc s))) = ''clear''
     \<and> step K (Clarify, s) (Llm, merge s (snd (node_clarify K gc s)))
     \<and> (\<forall>c'. step K (Clarify, s) c' \<longrightarrow> fst c' = Llm)"
proof -
  have r: "route (merge s (snd (node_clarify K gc s))) = ''clear''" for gc
    by (simp add: clarify_with_selections [OF assms] merge_simps no_update_def)
  have e: "clarify_edges (route_after_clarify (merge s (snd (node_clarify K gc s)))) = Some Llm" for gc
    by (simp add: r route_after_clarify_def clarify_edges_def)
  have st: "step K (Clarify, s) (Llm, merge s (snd (node_clarify K gc s)))"
    by (rule step.clarify [where gc = gc and tried = "fst (node_clarify K gc s)"
          and u = "snd (node_clarify K gc s)"]) (simp_all add: e)
  have "fst c' = Llm" if "step K (Clarify, s) c'" for c'
    using that
  proof (cases rule: step.cases)
    case (clarify gc tried u s' n)
    then have "route s' = ''clear''" using r [of gc] by simp
    then show ?thesis using clarify by (simp add: route_after_clarify_def clarify_edges_def)
  qed
  then show ?thesis using clarify_with_selections [OF assms] r st by blast
qed

theorem clarify_skips_with_selections_witness:
  "user_selections demo_s8 = Some [''The data was encrypted'']
   \<and> fst (node_clarify demo_collab (Inr demo_clarify_clients) demo_s8) = []
   \<and> u_retrieved_context (snd (node_clarify demo_collab (Inr demo_clarify_clients) demo_s8))
       = Some (nl @ nl @ ''[USER CLARIFICATION]'' @ nl @ ''- The data was encrypted'')
   \<and> step demo_collab (Clarify, demo_s8)
        (Llm, merge demo_s8 (snd (node_clarify demo_collab (Inr demo_clarify_clients) demo_s8)))"
proof -
  have h: "user_selections demo_s8 = Some [''The data was encrypted'']"
    by (simp add: demo_s8_def initial_state_def)
  have c: "retrieved_context demo_s8 = []" by (simp add: demo_s8_def initial_state_def)
  note t = clarify_skips_with_selections [OF h, of demo_collab "Inr demo_clarify_clients"]
  from t have n: "node_clarify demo_collab (Inr demo_clarify_clients) demo_s8 =
      ([], no_update\<lparr>
         u_retrieved_context := Some (retrieved_context demo_s8 @ nl @ nl @ ''[USER CLARIFICATION]'' @ nl
            @ join nl (map (\<lambda>x. ''- '' @ x) [''The data was encrypted''])),
         u_route := Some ''clear''\<rparr>)" by (rule conjunct1)
  from t have st: "step demo_collab (Clarify, demo_s8)
        (Llm, merge demo_s8 (snd (node_clarify demo_collab (Inr demo_clarify_clients) demo_s8)))"
    by blast
  have 1: "fst (node_clarify demo_collab (Inr demo_clarify_clients) demo_s8) = []"
    by (simp add: n)
  have 2: "u_retrieved_context (snd (node_clarify demo_collab (Inr demo_clarify_clients) demo_s8))
       = Some (nl @ nl @ ''[USER CLARIFICATION]'' @ nl @ ''- The data was encrypted'')"
    by (simp add: n c no_update_def)
  show ?thesis using h 1 2 st by blast
qed

section \<open>Penalty article injection\<close>

lemma starts_with_iff: "starts_with k s \<longleftrightarrow> (\<exists>b. s = k @ b)"
  by (induction k s rule: starts_with.induct) auto

lemma contains_iff: "contains k s \<longleftrightarrow> (\<exists>a b. s = a @ k @ b)"
proof (induction s)
  case Nil
  then show ?case by auto
next
  case (Cons c cs)
  show ?case
  proof
    assume "contains k (c # cs)"
    then consider "starts_with k (c # cs)" | "contains k cs" by auto
    then show "\<exists>a b. c # cs = a @ k @ b"
    proof cases
      case 1
      then obtain b where "c # cs = k @ b" by (auto simp: starts_with_iff)
      then have "c # cs = [] @ k @ b" by simp
      then show ?thesis by blast
    next
      case 2
      then obtain a b where "cs = a @ k @ b" using Cons.IH by auto
      then have "c # cs = (c # a) @ k @ b" by simp
      then show ?thesis by blast
    qed
  next
    assume "\<exists>a b. c # cs = a @ k @ b"
    then obtain a b where ab: "c # cs = a @ k @ b" by auto
    show "contains k (c # cs)"
    proof (cases a)
      case Nil
      then have "starts_with k (c # cs)" using ab by (auto simp: starts_with_iff)
      then show ?thesis by simp
    next
      case (Cons a0 as)
      then have "cs = as @ k @ b" using ab by simp
      then have "contains k cs" using Cons.IH by blast
      then show ?thesis by simp
    qed
  qed
qed

lemma contains_join:
  assumes "x \<in> set xs"
  shows "contains x (join sep xs)"
  using assms
proof (induction sep xs rule: join.induct)
  case (1 sep)
  then show ?case by simp
next
  case (2 sep y)
  then have "join sep [y] = [] @ x @ []" by simp
  then show ?case unfolding contains_iff by blast
next
  case (3 sep y z zs)
  show ?case
  proof (cases "x = y")
    case True
    then have "join sep (y # z # zs) = [] @ x @ (sep @ join sep (z # zs))" by simp
    then show ?thesis unfolding contains_iff by blast
  next
    case False
    then have "x \<in> set (z # zs)" using 3 by auto
    then obtain a b where "join sep (z # zs) = a @ x @ b" using 3 unfolding contains_iff by blast
    then have "join sep (y # z # zs) = (y @ sep @ a) @ x @ b" by simp
    then show ?thesis unfolding contains_iff by blast
  qed
qed

lemma inject_mono: "set ids \<subseteq> set (inject q rules ids)"
proof (induction q rules ids rule: inject.induct)
  case (1 q ids)
  then show ?case by simp
next
  case (2 q uu triggers art_ids rules ids)
  then show ?case by (auto split: if_splits)
qed

lemma inject_hit:
  assumes "(nm, triggers, art_ids) \<in> set rules" "any_in triggers q"
  shows "set art_ids \<subseteq> set (inject q rules ids)"
  using assms
proof (induction q rules ids rule: inject.induct)
  case (1 q ids)
  then show ?case by simp
next
  case (2 q uu trg arts rules ids)
  show ?case
  proof (cases "(nm, triggers, art_ids) = (uu, trg, arts)")
    case True
    then have "set art_ids \<subseteq> set (ids @ arts)" by auto
    also have "\<dots> \<subseteq> set (inject q rules (ids @ arts))" by (rule inject_mono)
    finally show ?thesis using True 2(3) by simp
  next
    case False
    then have "(nm, triggers, art_ids) \<in> set rules" using 2(2) by auto
    from 2(1) [OF this 2(3)] show ?thesis by simp
  qed
qed

lemma penalty_rule: "(''penalty_logic'', [''fine'', ''penalty'', ''administrative'', ''sanction'', ''euro''], [''83''])
    \<in> set DOMAIN_MAP"
  by (simp add: DOMAIN_MAP_def)

text \<open>
  Claim C5 as stated fails: in the FDA domain the retrieve stage runs on a query that
  mentions a fine, the lawsuit search answers with a non-empty result, and the
  \<open>retrieved_context\<close> is that result, without the expansion of Article 83.
\<close>

theorem penalty_injection_counterexample:
  "any_in [''fine'', ''penalty'', ''administrative'', ''sanction'', ''euro''] (lower (user_query demo_f1))
   \<and> reachable demo_collab demo_f0 (Retrieve, demo_f1)
   \<and> node_retrieve demo_collab demo_search (searcher_search_lawsuits (Some demo_tavily)) demo_f1
       = Inr (no_update\<lparr>u_retrieved_context := Some (''- **United States v. Acme Pharma**: ''
           @ ''The court imposed a civil penalty for misbranded drugs.''
           @ ''... [Source](https://example.org/acme)'')\<rparr>)
   \<and> \<not> contains (expand_article_by_id demo_collab ''83'')
         (''- **United States v. Acme Pharma**: ''
           @ ''The court imposed a civil penalty for misbranded drugs.''
           @ ''... [Source](https://example.org/acme)'')"
proof -
  have g: "step demo_collab (Guardrail, demo_f0) (Retrieve, demo_f1)"
  proof (rule step.guardrail)
    show "demo_f1 = merge demo_f0 (node_guardrail demo_f0)" by (simp add: demo_f1_def)
    show "guardrail_edges (route_after_guardrail demo_f1) = Some Retrieve" by code_simp
  qed
  have r: "reachable demo_collab demo_f0 (Retrieve, demo_f1)"
    unfolding reachable_def using g by blast
  have a: "any_in [''fine'', ''penalty'', ''administrative'', ''sanction'', ''euro'']
      (lower (user_query demo_f1))" by code_simp
  have n: "node_retrieve demo_collab demo_search (searcher_search_lawsuits (Some demo_tavily)) demo_f1
       = Inr (no_update\<lparr>u_retrieved_context := Some (''- **United States v. Acme Pharma**: ''
           @ ''The court imposed a civil penalty for misbranded drugs.''
           @ ''... [Source](https://example.org/acme)'')\<rparr>)" by code_simp
  have c: "\<not> contains (expand_article_by_id demo_collab ''83'')
         (''- **United States v. Acme Pharma**: ''
           @ ''The court imposed a civil penalty for misbranded drugs.''
           @ ''... [Source](https://example.org/acme)'')" by code_simp
  show ?thesis using a r n c by blast
qed

text \<open>
  Claim C5, amended. In the GDPR domain, for every query whose lower-cased text contains a
  financial-penalty keyword, when the retrieve stage runs with a non-empty retrieval result,
  the \<open>retrieved_context\<close> it writes contains the expansion of Article 83, whether or not
  the retrieval result holds that article.
\<close>

theorem penalty_article_injected:
  assumes "domain s = ''GDPR''"
    and "any_in [''fine'', ''penalty'', ''administrative'', ''sanction'', ''euro''] (lower (user_query s))"
    and "hybrid_search (user_query s) (if needs_multi_article_reasoning (user_query s) then 6 else 3)
           = Inr results"
    and "results \<noteq> []"
  shows "\<exists>ctx. node_retrieve K hybrid_search search_lawsuits s
             = Inr (no_update\<lparr>u_retrieved_context := Some ctx\<rparr>)
           \<and> contains (expand_article_by_id K ''83'') ctx"
proof -
  let ?ids = "inject (lower (user_query s)) DOMAIN_MAP (map hit_article_id results)"
  let ?ctx = "join (nl @ nl) (map (expand_article_by_id K) (sort (remdups ?ids)))"
  have "node_retrieve K hybrid_search search_lawsuits s = Inr (no_update\<lparr>u_retrieved_context := Some ?ctx\<rparr>)"
    using assms(1,3,4) by (simp add: node_retrieve_def Let_def)
  moreover have "''83'' \<in> set ?ids"
    using inject_hit [OF penalty_rule assms(2), of "map hit_article_id results"] by simp
  then have "expand_article_by_id K ''83'' \<in> set (map (expand_article_by_id K) (sort (remdups ?ids)))"
    by simp
  then have "contains (expand_article_by_id K ''83'') ?ctx" by (rule contains_join)
  ultimately show ?thesis by blast
qed

theorem penalty_article_injected_witness:
  "''83'' \<notin> set (map hit_article_id demo_hits)
   \<and> expand_article_by_id demo_collab ''83''
       = ''Article 83: General conditions for imposing administrative fines'' @ nl
         @ ''[1] Each supervisory authority shall ensure that fines are effective.''
   \<and> (\<exists>ctx. node_retrieve demo_collab (\<lambda>q k. Inr demo_hits) (\<lambda>q. [])
               (initial_state [] ''What is the maximum fine?'' ''GDPR'' ''t1'' None)
             = Inr (no_update\<lparr>u_retrieved_context := Some ctx\<rparr>)
           \<and> contains (expand_article_by_id demo_collab ''83'') ctx)"
proof -
  have 0: "expand_article_by_id demo_collab ''83''
       = ''Article 83: General conditions for imposing administrative fines'' @ nl
         @ ''[1] Each supervisory authority shall ensure that fines are effective.''"
    by code_simp
  let ?s = "initial_state [] ''What is the maximum fine?'' ''GDPR'' ''t1'' None"
  have 1: "domain ?s = ''GDPR''" by (simp add: initial_state_def)
  have 2: "any_in [''fine'', ''penalty'', ''administrative'', ''sanction'', ''euro''] (lower (user_query ?s))"
    by code_simp
  have 3: "(\<lambda>q k. Inr demo_hits) (user_query ?s)
      (if needs_multi_article_reasoning (user_query ?s) then 6 else 3) = Inr demo_hits" by simp
  have 4: "demo_hits \<noteq> []" by (simp add: demo_hits_def)
  have 5: "''83'' \<notin> set (map hit_article_id demo_hits)" by (simp add: demo_hits_def)
  from penalty_article_injected [OF 1 2 3 4, of demo_collab "\<lambda>q. []"] 0 5
  show ?thesis by blast
qed

section \<open>Idempotence of the semantic override\<close>

lemma gdpr_tax_absorb:
  "gdpr_tax_override (definition_override b (gdpr_tax_override r)) = gdpr_tax_override r"
  by (simp add: gdpr_tax_override_def definition_override_def)

lemma ccpa_absorb:
  "(definition_override b (r\<lparr>legal_basis := lb, risk_level := rk, confidence_score := cf\<rparr>))
      \<lparr>legal_basis := lb, risk_level := rk, confidence_score := cf\<rparr>
   = r\<lparr>legal_basis := lb, risk_level := rk, confidence_score := cf\<rparr>"
  by (simp add: definition_override_def)

lemma domain_override_cases:
  "(\<forall>r. domain_override d q r = r)
   \<or> (\<forall>r b. domain_override d q (definition_override b (domain_override d q r)) = domain_override d q r)"
proof (cases "d = ''GDPR''")
  case True
  then show ?thesis by (simp add: domain_override_def gdpr_tax_absorb)
next
  case False
  show ?thesis
  proof (cases "d = ''CCPA''")
    case True
    show ?thesis
    proof (cases "find (\<lambda>(key, _). contains key q) SEMANTIC_MAP")
      case None
      then show ?thesis using True by (simp add: domain_override_def)
    next
      case (Some a)
      obtain key citation risk conf where "a = (key, citation, risk, conf)" by (cases a) auto
      then show ?thesis using True Some by (simp add: domain_override_def ccpa_absorb)
    qed
  next
    case False
    then show ?thesis using \<open>d \<noteq> ''GDPR''\<close> by (simp add: domain_override_def)
  qed
qed

lemma definition_override_idem:
  "definition_override b (definition_override b r) = definition_override b r"
  by (simp add: definition_override_def)

lemma override_idem:
  "definition_override b (domain_override d q (definition_override b (domain_override d q r)))
   = definition_override b (domain_override d q r)"
  using domain_override_cases [of d q] by (auto simp: definition_override_idem)

text \<open>
  Claim C7. The semantic override is idempotent: for every state whose candidate analysis
  parses, the stage returns an update, and running the stage again on the state merged with
  that update returns the same update, so the analysis does not change any further.
\<close>

theorem semantic_override_idempotent:
  assumes "analysis s = Some d" and "parse_analysis d = Inr r"
  shows "\<exists>u. node_semantic_override s = Inr u
      \<and> node_semantic_override (merge s u) = Inr u
      \<and> analysis (merge (merge s u) u) = analysis (merge s u)"
proof -
  let ?f = "\<lambda>x. definition_override (definition_query (lower (user_query s)))
     (domain_override (domain s) (lower (user_query s)) x)"
  have d: "d = Dumped r" using assms(2) by (cases d) auto
  have 1: "node_semantic_override s = Inr (no_update\<lparr>u_analysis := Some (Dumped (?f r))\<rparr>)"
    using assms(1) d by (simp add: node_semantic_override_def Let_def)
  have 2: "analysis (merge s (no_update\<lparr>u_analysis := Some (Dumped (?f r))\<rparr>)) = Some (Dumped (?f r))"
    by (simp add: merge_simps)
  have 3: "node_semantic_override (merge s (no_update\<lparr>u_analysis := Some (Dumped (?f r))\<rparr>))
      = Inr (no_update\<lparr>u_analysis := Some (Dumped (?f (?f r)))\<rparr>)"
    unfolding node_semantic_override_def 2 by (simp add: Let_def merge_simps)
  have "?f (?f r) = ?f r" by (rule override_idem)
  with 1 3 show ?thesis by (simp add: merge_simps)
qed

theorem semantic_override_idempotent_witness:
  "analysis demo_s7 = Some (Dumped demo_response)
   \<and> (\<exists>u. node_semantic_override demo_s7 = Inr u
         \<and> node_semantic_override (merge demo_s7 u) = Inr u
         \<and> u_analysis u \<noteq> Some (Dumped demo_response))"
proof -
  have 1: "analysis demo_s7 = Some (Dumped demo_response)" by (simp add: demo_s7_def)
  have 2: "parse_analysis (Dumped demo_response) = Inr demo_response" by simp
  have 3: "node_semantic_override demo_s7 \<noteq> Inr (no_update\<lparr>u_analysis := Some (Dumped demo_response)\<rparr>)"
    by code_simp
  from semantic_override_idempotent [OF 1 2] obtain u where
    u: "node_semantic_override demo_s7 = Inr u" "node_semantic_override (merge demo_s7 u) = Inr u"
    by blast
  have "u_analysis u \<noteq> Some (Dumped demo_response)"
  proof
    assume a: "u_analysis u = Some (Dumped demo_response)"
    have "u = no_update\<lparr>u_analysis := Some (Dumped demo_response)\<rparr>"
      using u(1) 1 a by (auto simp: node_semantic_override_def Let_def)
    with u(1) 3 show False by simp
  qed
  with u 1 show ?thesis by blast
qed

section \<open>The failover loop\<close>

lemma failover_prefix:
  assumes "\<forall>m \<in> set pre. retryable create m"
  shows "\<exists>errors'. failover create n errors tried (pre @ rest)
           = failover create n errors' (tried @ pre) rest"
  using assms
proof (induction pre arbitrary: errors tried)
  case Nil
  then show ?case by auto
next
  case (Cons m pre)
  from Cons.prems obtain e where e: "create m = Inl e" "\<not> schema_marker (lower e)"
    by (auto simp: retryable_def split: sum.splits)
  from Cons.prems have "\<forall>m \<in> set pre. retryable create m" by simp
  from Cons.IH [OF this, of "errors @ [m @ '': '' @ e]" "tried @ [m]"]
  show ?case using e by simp
qed

lemma failover_outage_only:
  assumes "snd (failover create n errors tried ms) = Inl (Outage k errs)"
  shows "\<forall>m \<in> set ms. retryable create m"
  using assms
proof (induction ms arbitrary: errors tried)
  case Nil
  then show ?case by simp
next
  case (Cons m ms)
  show ?case
  proof (cases "create m")
    case (Inr response)
    then show ?thesis using Cons.prems by simp
  next
    case (Inl e)
    show ?thesis
    proof (cases "schema_marker (lower e)")
      case True
      then show ?thesis using Inl Cons.prems by simp
    next
      case False
      then have "snd (failover create n (errors @ [m @ '': '' @ e]) (tried @ [m]) ms)
          = Inl (Outage k errs)"
        using Inl Cons.prems by simp
      then have "\<forall>x \<in> set ms. retryable create x" by (rule Cons.IH)
      moreover have "retryable create m" using Inl False by (simp add: retryable_def)
      ultimately show ?thesis by simp
    qed
  qed
qed

text \<open>
  Claim C9. In the failover loop, for every list of models: when the models before \<open>m\<close>
  all fail with errors that are not schema mismatches, \<open>m\<close> is tried; if \<open>m\<close> then fails
  with a schema mismatch, the loop aborts with the schema error and tries no later model; if
  \<open>m\<close> answers, its response is returned. The outage error is raised when all models have
  failed, and only then.
\<close>

theorem safe_api_call_failover:
  "(\<forall>pre m post e. models cl = pre @ m # post \<and> (\<forall>x \<in> set pre. retryable (api_create cl msgs temperature response_model) x)
            \<and> (api_create cl msgs temperature response_model) m = Inl e \<and> schema_marker (lower e)
          \<longrightarrow> safe_api_call cl msgs temperature response_model
                = (pre @ [m], Inl (SchemaMismatch (lower e))))
     \<and> (\<forall>pre m post response. models cl = pre @ m # post \<and> (\<forall>x \<in> set pre. retryable (api_create cl msgs temperature response_model) x)
            \<and> (api_create cl msgs temperature response_model) m = Inr response
          \<longrightarrow> safe_api_call cl msgs temperature response_model = (pre @ [m], Inr response))
     \<and> ((\<forall>x \<in> set (models cl). retryable (api_create cl msgs temperature response_model) x)
          \<longrightarrow> (\<exists>errs. safe_api_call cl msgs temperature response_model
                = (models cl, Inl (Outage (length (models cl)) errs))))
     \<and> (\<forall>k errs. snd (safe_api_call cl msgs temperature response_model) = Inl (Outage k errs)
          \<longrightarrow> (\<forall>x \<in> set (models cl). retryable (api_create cl msgs temperature response_model) x))"
proof -
  let ?create = "api_create cl msgs temperature response_model"
  have sac: "safe_api_call cl msgs temperature response_model
      = failover ?create (length (models cl)) [] [] (models cl)"
    by (simp add: safe_api_call_def)
  have pre: "\<exists>errors'. safe_api_call cl msgs temperature response_model
        = failover ?create (length (models cl)) errors' pre rest"
    if "models cl = pre @ rest" "\<forall>x \<in> set pre. retryable ?create x" for pre rest
    using failover_prefix [OF that(2), of "length (models cl)" "[]" "[]" rest] that(1) sac by simp
  have a: "safe_api_call cl msgs temperature response_model = (pre @ [m], Inl (SchemaMismatch (lower e)))"
    if "models cl = pre @ m # post" "\<forall>x \<in> set pre. retryable ?create x" "?create m = Inl e"
      "schema_marker (lower e)" for pre m post e
    using pre [OF that(1,2)] that(3,4) by auto
  have b: "safe_api_call cl msgs temperature response_model = (pre @ [m], Inr response)"
    if "models cl = pre @ m # post" "\<forall>x \<in> set pre. retryable ?create x" "?create m = Inr response"
    for pre m post response
    using pre [OF that(1,2)] that(3) by auto
  have c: "\<exists>errs. safe_api_call cl msgs temperature response_model
                = (models cl, Inl (Outage (length (models cl)) errs))"
    if "\<forall>x \<in> set (models cl). retryable ?create x"
    using pre [of "models cl" "[]"] that by auto
  have d: "\<forall>x \<in> set (models cl). retryable ?create x"
    if "snd (safe_api_call cl msgs temperature response_model) = Inl (Outage k errs)" for k errs
    using failover_outage_only [of ?create "length (models cl)" "[]" "[]" "models cl" k errs] that sac
    by simp
  show ?thesis using a b c d by blast
qed

theorem safe_api_call_failover_witness:
  "safe_api_call demo_flaky [] 0 True
     = ([''model-a'', ''model-b''], Inl (SchemaMismatch ''1 validation error for complianceresponse''))
   \<and> safe_api_call (demo_flaky\<lparr>models := [''model-a'', ''model-c'']\<rparr>) [] 0 True
     = ([''model-a'', ''model-c''], Inr (Structured demo_response))
   \<and> (\<exists>errs. safe_api_call (demo_flaky\<lparr>models := [''model-a'']\<rparr>) [] 0 True
     = ([''model-a''], Inl (Outage 1 errs)))"
proof -
  have a: "retryable (api_create (demo_flaky\<lparr>models := ms\<rparr>) [] 0 True) ''model-a''" for ms
    by code_simp
  have a': "retryable (api_create demo_flaky [] 0 True) ''model-a''"
    by code_simp
  have b: "api_create demo_flaky [] 0 True ''model-b'' = Inl ''1 Validation Error for ComplianceResponse''"
    by (simp add: api_create_def demo_flaky_def)
  have b': "schema_marker (lower ''1 Validation Error for ComplianceResponse'')"
    "lower ''1 Validation Error for ComplianceResponse'' = ''1 validation error for complianceresponse''"
    by code_simp+
  have c: "api_create (demo_flaky\<lparr>models := ms\<rparr>) [] 0 True ''model-c'' = Inr (Structured demo_response)"
    for ms by (simp add: api_create_def demo_flaky_def)
  have 1: "safe_api_call demo_flaky [] 0 True
     = ([''model-a'', ''model-b''], Inl (SchemaMismatch ''1 validation error for complianceresponse''))"
    using safe_api_call_failover [of demo_flaky "[]" 0 True, THEN conjunct1, rule_format,
        of "[''model-a'']" "''model-b''" "[''model-c'']" "''1 Validation Error for ComplianceResponse''"]
      a' b b' by (simp add: demo_flaky_def)
  have 2: "safe_api_call (demo_flaky\<lparr>models := [''model-a'', ''model-c'']\<rparr>) [] 0 True
     = ([''model-a'', ''model-c''], Inr (Structured demo_response))"
    using safe_api_call_failover [of "demo_flaky\<lparr>models := [''model-a'', ''model-c'']\<rparr>" "[]" 0 True,
        THEN conjunct2, THEN conjunct1, rule_format,
        of "[''model-a'']" "''model-c''" "[]" "Structured demo_response"]
      a c by simp
  have 3: "\<exists>errs. safe_api_call (demo_flaky\<lparr>models := [''model-a'']\<rparr>) [] 0 True
     = ([''model-a''], Inl (Outage 1 errs))"
    using safe_api_call_failover [of "demo_flaky\<lparr>models := [''model-a'']\<rparr>" "[]" 0 True,
        THEN conjunct2, THEN conjunct2, THEN conjunct1] a by simp
  show ?thesis using 1 2 3 by blast
qed

section \<open>Retrieval that yields nothing\<close>

lemma recover_nonempty:
  assumes "recover md idxs = Inr found" and "\<exists>j \<in> set idxs. 0 \<le> j \<and> j < int (length md)"
  shows "found \<noteq> []"
  using assms
proof (induction idxs arbitrary: found)
  case Nil
  then show ?case by simp
next
  case (Cons idx rest)
  show ?case
  proof (cases "idx < int (length md)")
    case True
    then show ?thesis using Cons.prems(1) by (auto split: if_splits sum.splits)
  next
    case False
    then have "recover md rest = Inr found" using Cons.prems(1) by simp
    moreover have "\<exists>j \<in> set rest. 0 \<le> j \<and> j < int (length md)"
      using Cons.prems(2) False by auto
    ultimately show ?thesis by (rule Cons.IH)
  qed
qed

lemma last_k_hit:
  assumes "0 < k" "xs \<noteq> []"
  shows "\<exists>x. x \<in> set (last_k k xs) \<and> x \<in> set xs"
proof -
  have "length xs - k < length xs" using assms by (cases xs) auto
  then have "drop (length xs - k) xs \<noteq> []" by simp
  then obtain x where x: "x \<in> set (drop (length xs - k) xs)"
    by (cases "drop (length xs - k) xs") auto
  then have "x \<in> set xs" by (rule in_set_dropD)
  with x show ?thesis using assms(1) by (auto simp: last_k_def)
qed

lemma set_fromkeys: "set (fromkeys xs) = set xs"
  by (simp add: fromkeys_def)

lemma hybrid_search_nonempty:
  assumes "0 < k" and "length (argsort q) = length (corpus_metadata K)"
    and "set (argsort q) = {..<length (corpus_metadata K)}"
  shows "indexer_hybrid_search (corpus_indexer K) faiss argsort q k \<noteq> Inr []"
proof (cases "corpus_metadata K = []")
  case True
  then show ?thesis by (simp add: indexer_hybrid_search_def corpus_indexer_def unbuilt_def)
next
  case False
  let ?md = "corpus_metadata K"
  let ?combined = "fromkeys (faiss q k @ map int (last_k k (argsort q)))"
  have ix: "index_built (corpus_indexer K)" "metadata (corpus_indexer K) = ?md"
    using False by (simp_all add: corpus_indexer_def build_def)
  have "argsort q \<noteq> []" using False assms(2) by auto
  from last_k_hit [OF assms(1) this] obtain x where
    x: "x \<in> set (last_k k (argsort q))" "x < length ?md" using assms(3) by auto
  then have hit: "\<exists>j \<in> set ?combined. 0 \<le> j \<and> j < int (length ?md)"
    by (auto simp: set_fromkeys intro!: bexI [of _ "int x"])
  show ?thesis
  proof (cases "recover ?md ?combined")
    case (Inl e)
    then show ?thesis using ix by (simp add: indexer_hybrid_search_def Let_def)
  next
    case (Inr found)
    then have "found \<noteq> []" using hit by (rule recover_nonempty)
    then have "take k found \<noteq> []" using assms(1) by (cases found) auto
    then show ?thesis using ix Inr by (simp add: indexer_hybrid_search_def Let_def)
  qed
qed

text \<open>
  Claim C6 as stated fails: in the FDA domain the lawsuit search answers with an empty
  result set, the retrieve stage writes an empty \<open>retrieved_context\<close> and neither a route
  nor a final response, and the turn goes on to the LLM stage.
\<close>

theorem empty_retrieval_counterexample:
  "searcher_search_lawsuits (Some demo_tavily_empty) (user_query demo_c1) = []
   \<and> node_retrieve demo_collab demo_search (searcher_search_lawsuits (Some demo_tavily_empty)) demo_c1
       = Inr (no_update\<lparr>u_retrieved_context := Some []\<rparr>)
   \<and> route demo_c2 = ''analysis'' \<and> final_response demo_c2 = None
   \<and> reachable demo_collab demo_c0 (Llm, demo_c3)"
proof -
  have g: "step demo_collab (Guardrail, demo_c0) (Retrieve, demo_c1)"
  proof (rule step.guardrail)
    show "demo_c1 = merge demo_c0 (node_guardrail demo_c0)" by (simp add: demo_c1_def)
    show "guardrail_edges (route_after_guardrail demo_c1) = Some Retrieve" by code_simp
  qed
  have e: "searcher_search_lawsuits (Some demo_tavily_empty) (user_query demo_c1) = []"
    by code_simp
  have n: "node_retrieve demo_collab demo_search (searcher_search_lawsuits (Some demo_tavily_empty))
      demo_c1 = Inr (no_update\<lparr>u_retrieved_context := Some []\<rparr>)"
    by code_simp
  have r: "step demo_collab (Retrieve, demo_c1) (Clarify, demo_c2)"
    unfolding demo_c2_def by (rule step.retrieve [OF n])
  have b: "route demo_c2 = ''analysis''" "final_response demo_c2 = None"
    by code_simp+
  have c: "step demo_collab (Clarify, demo_c2) (Llm, demo_c3)"
  proof (rule step.clarify)
    show "node_clarify demo_collab (Inl ''no key'') demo_c2 = ([], clear)" by code_simp
    show "demo_c3 = merge demo_c2 clear" by (simp add: demo_c3_def)
    show "clarify_edges (route_after_clarify demo_c3) = Some Llm" by code_simp
  qed
  have "reachable demo_collab demo_c0 (Llm, demo_c3)"
    unfolding reachable_def using g r c
    by (meson rtranclp.rtrancl_into_rtrancl rtranclp.rtrancl_refl)
  then show ?thesis using e n b by simp
qed

text \<open>
  Claim C6, amended. In the GDPR domain, when the index search hands the retrieve stage an
  empty result, the stage writes an empty \<open>retrieved_context\<close>, \<open>route = "blocked"\<close> and
  the insufficient-context error as final response. The index search of the repository
  itself never hands over an empty result (it raises on an index that was not built, and it
  returns at least one hit otherwise), so with it the stage never writes that update. In the
  FDA domain an empty lawsuit search is passed on as an empty \<open>retrieved_context\<close>, with no
  route and no final response.
\<close>

theorem retrieve_empty_result:
  "(domain s = ''GDPR''
      \<and> hybrid_search (user_query s) (if needs_multi_article_reasoning (user_query s) then 6 else 3)
          = Inr []
     \<longrightarrow> node_retrieve K hybrid_search search_lawsuits s = Inr insufficient)
   \<and> ((\<forall>q. length (argsort q) = length (corpus_metadata K)
            \<and> set (argsort q) = {..<length (corpus_metadata K)})
     \<longrightarrow> node_retrieve K (indexer_hybrid_search (corpus_indexer K) faiss argsort) search_lawsuits s
           \<noteq> Inr insufficient)
   \<and> (domain s = ''FDA'' \<and> search_lawsuits (user_query s) = []
     \<longrightarrow> node_retrieve K hybrid_search search_lawsuits s
           = Inr (no_update\<lparr>u_retrieved_context := Some []\<rparr>))"
proof -
  have 1: "node_retrieve K hybrid_search search_lawsuits s = Inr insufficient"
    if "domain s = ''GDPR''"
      "hybrid_search (user_query s) (if needs_multi_article_reasoning (user_query s) then 6 else 3)
          = Inr []"
    using that by (simp add: node_retrieve_def Let_def insufficient_def)
  have 2: "node_retrieve K (indexer_hybrid_search (corpus_indexer K) faiss argsort) search_lawsuits s
           \<noteq> Inr insufficient"
    if p: "\<forall>q. length (argsort q) = length (corpus_metadata K)
            \<and> set (argsort q) = {..<length (corpus_metadata K)}"
  proof
    let ?k = "if needs_multi_article_reasoning (user_query s) then 6 else 3 :: nat"
    let ?hs = "indexer_hybrid_search (corpus_indexer K) faiss argsort"
    assume a: "node_retrieve K ?hs search_lawsuits s = Inr insufficient"
    have ne: "?hs (user_query s) ?k \<noteq> Inr []"
      using hybrid_search_nonempty [of ?k argsort "user_query s" K faiss] p by simp
    have "u_route insufficient = Some ''blocked''" by (simp add: insufficient_def no_update_def)
    moreover have "u_route u = None" if "node_retrieve K ?hs search_lawsuits s = Inr u" for u
      using that ne
      by (auto simp: node_retrieve_def Let_def no_update_def split: if_splits sum.splits)
    ultimately show False using a by fastforce
  qed
  have 3: "node_retrieve K hybrid_search search_lawsuits s
           = Inr (no_update\<lparr>u_retrieved_context := Some []\<rparr>)"
    if "domain s = ''FDA''" "search_lawsuits (user_query s) = []"
    using that by (simp add: node_retrieve_def Let_def)
  show ?thesis using 1 2 3 by blast
qed

theorem retrieve_empty_result_witness:
  "node_retrieve demo_collab demo_no_hits (searcher_search_lawsuits None) demo_g1 = Inr insufficient
   \<and> node_retrieve demo_collab (indexer_hybrid_search (corpus_indexer demo_collab) demo_faiss demo_argsort)
        (searcher_search_lawsuits None) demo_g1 \<noteq> Inr insufficient
   \<and> node_retrieve demo_collab demo_search (searcher_search_lawsuits (Some demo_tavily_empty)) demo_c1
       = Inr (no_update\<lparr>u_retrieved_context := Some []\<rparr>)"
proof -
  have d: "domain demo_g1 = ''GDPR''" by (simp add: demo_g1_def merge_simps initial_state_def)
  have h: "demo_no_hits (user_query demo_g1)
      (if needs_multi_article_reasoning (user_query demo_g1) then 6 else 3) = Inr []"
    by (simp add: demo_no_hits_def)
  have p: "\<forall>q. length (demo_argsort q) = length (corpus_metadata demo_collab)
            \<and> set (demo_argsort q) = {..<length (corpus_metadata demo_collab)}"
    by (auto simp: demo_argsort_def corpus_metadata_def demo_collab_def)
  have f: "domain demo_c1 = ''FDA''" by (simp add: demo_c1_def demo_c0_def merge_simps initial_state_def)
  have e: "searcher_search_lawsuits (Some demo_tavily_empty) (user_query demo_c1) = []"
    by code_simp
  note t1 = retrieve_empty_result [where s = demo_g1 and hybrid_search = demo_no_hits
      and K = demo_collab and search_lawsuits = "searcher_search_lawsuits None", THEN conjunct1]
  note t2 = retrieve_empty_result [where K = demo_collab and argsort = demo_argsort
      and faiss = demo_faiss and search_lawsuits = "searcher_search_lawsuits None" and s = demo_g1,
      THEN conjunct2, THEN conjunct1]
  note t3 = retrieve_empty_result [where s = demo_c1 and hybrid_search = demo_search
      and K = demo_collab and search_lawsuits = "searcher_search_lawsuits (Some demo_tavily_empty)",
      THEN conjunct2, THEN conjunct2]
  show ?thesis using t1 t2 t3 d h p f e by blast
qed

section \<open>Discriminators of terminal results\<close>

lemma result_type_dump: "result_type (model_dump r) = None"
  by (simp add: result_type_def model_dump_def)

lemma map_of_dict_of_aux: "map_of (foldl (\<lambda>d (k, v). AList.update k v d) d0 kvs) = map_of (rev kvs @ d0)"
proof (induction kvs arbitrary: d0)
  case Nil
  then show ?case by simp
next
  case (Cons kv kvs)
  obtain k v where kv: "kv = (k, v)" by (cases kv)
  show ?case by (simp add: Cons.IH kv update_conv' map_add_def fun_eq_iff)
qed

lemma map_of_dict_of: "map_of (dict_of kvs) = map_of (rev kvs)"
  using map_of_dict_of_aux [of "[]" kvs] by (simp add: dict_of_def)

lemma type_error: "result_type (dict_of [(''type'', JStr t), (''message'', JStr m)]) = Some t"
  by (simp add: result_type_def map_of_dict_of)

lemma type_clarification:
  "result_type (dict_of [(''type'', JStr t), (''summary'', JStr m), (''options'', JList os)]) = Some t"
  by (simp add: result_type_def map_of_dict_of)

lemma type_blocked: "result_type (dict_of [(''type'', JStr t), (''reason'', JStr m)]) = Some t"
  by (simp add: result_type_def map_of_dict_of)

lemma type_review:
  "result_type (dict_of ((''type'', JStr t) # (''reason'', JStr m) # (''risk_level'', JStr rl)
        # (''confidence'', JNum c) # model_dump r)) = Some t"
  by (simp add: result_type_def map_of_dict_of model_dump_def)

lemmas type_simps = type_error type_clarification type_blocked type_review result_type_dump

lemma never_blocked: "status (classify_decision K conf risk False) \<noteq> BLOCKED"
  by (simp add: classify_decision_def)

lemma review_iff:
  "status (classify_decision K conf (risk_value rl) False) = REVIEW_REQUIRED
     \<longleftrightarrow> rl = CRITICAL \<or> conf < 3 / 4"
  by (cases rl) (simp_all add: classify_decision_def)

lemma chat_result:
  assumes "node_chat K gc s = (tried, Inr u)"
  shows "\<exists>fr. u_final_response u = Some fr \<and> result_type fr = Some ''chat''"
  using assms
  by (auto simp: node_chat_def Let_def no_update_def type_simps split: sum.splits list.splits prod.splits)

lemma clarify_result:
  assumes "node_clarify K gc s = (tried, u)"
  shows "(u_route u = Some ''clear'' \<and> u_final_response u = None)
     \<or> (u_route u = Some ''depends''
          \<and> (\<exists>fr. u_final_response u = Some fr \<and> result_type fr = Some ''clarification''))"
  using assms
  by (auto simp: node_clarify_def Let_def no_update_def clear_def type_simps
      split: sum.splits list.splits prod.splits option.splits if_splits)

lemma retrieve_result:
  assumes "node_retrieve K hs sl s = Inr u"
  shows "(u_route u = None \<and> u_final_response u = None)
     \<or> (u_route u = Some ''blocked''
          \<and> (\<exists>fr. u_final_response u = Some fr \<and> result_type fr = Some ''error''))"
  using assms
  by (auto simp: node_retrieve_def Let_def no_update_def type_simps split: sum.splits if_splits)

lemma llm_result:
  assumes "node_llm K gc s = (tried, u)"
  shows "(u_route u = None \<and> u_final_response u = None)
     \<or> (u_route u = Some ''blocked''
          \<and> (\<exists>fr. u_final_response u = Some fr \<and> result_type fr = Some ''error''))"
  using assms
  by (auto simp: node_llm_def Let_def no_update_def llm_error_def type_simps
      split: sum.splits prod.splits llm_out.splits)

lemma guardrail_result:
  "(u_route (node_guardrail s) = Some ''blocked''
      \<and> u_final_response (node_guardrail s) = Some (model_dump blocked_response))
   \<or> (u_route (node_guardrail s) \<in> {Some ''general'', Some ''analysis''}
      \<and> u_final_response (node_guardrail s) = None)"
  by (simp add: node_guardrail_def Let_def no_update_def)

lemma fallback_result:
  "\<exists>fr. u_final_response (node_fallback K s) = Some fr \<and> result_type fr = Some ''error''"
  by (simp add: node_fallback_def Let_def no_update_def type_simps)

lemma governance_review:
  assumes "analysis s = Some (Dumped r)" "\<not> needs_clarification r"
    "risk_level r = CRITICAL \<or> confidence_score r < 3 / 4"
  shows "\<exists>fr. node_governance K s = Inr (no_update\<lparr>u_final_response := Some fr\<rparr>)
     \<and> result_type fr = Some ''review_required''"
proof -
  have "status (classify_decision K (confidence_score r) (risk_value (risk_level r)) False)
      = REVIEW_REQUIRED"
    using assms(3) review_iff [of K "confidence_score r" "risk_level r"] by simp
  then have "node_governance K s = Inr (no_update\<lparr>u_final_response := Some (dict_of
      ((''type'', JStr ''review_required'')
       # (''reason'', JStr (reason (classify_decision K (confidence_score r) (risk_value (risk_level r)) False)))
       # (''risk_level'', JStr (gd_risk_level (classify_decision K (confidence_score r) (risk_value (risk_level r)) False)))
       # (''confidence'', JNum (confidence (classify_decision K (confidence_score r) (risk_value (risk_level r)) False)))
       # model_dump r))\<rparr>)"
    using assms(1,2) by (simp add: node_governance_def Let_def)
  then show ?thesis using type_review by blast
qed

lemma governance_pass:
  assumes "analysis s = Some (Dumped r)"
    "needs_clarification r \<or> (risk_level r \<noteq> CRITICAL \<and> 3 / 4 \<le> confidence_score r)"
  shows "node_governance K s = Inr (no_update\<lparr>u_final_response := Some (model_dump r)\<rparr>)"
  using assms review_iff [of K "confidence_score r" "risk_level r"]
  by (auto simp: node_governance_def Let_def never_blocked)

lemma governance_result:
  assumes "node_governance K s = Inr u"
  shows "\<exists>fr. u_final_response u = Some fr
     \<and> (result_type fr \<in> {Some ''error'', Some ''review_required''} \<or> (\<exists>r. fr = model_dump r))"
proof (cases "analysis s")
  case None
  then show ?thesis using assms by (auto simp: node_governance_def no_update_def type_simps)
next
  case (Some d)
  show ?thesis
  proof (cases d)
    case EmptyDict
    then show ?thesis using assms Some by (auto simp: node_governance_def no_update_def type_simps)
  next
    case (Malformed e)
    then show ?thesis using assms Some by (simp add: node_governance_def)
  next
    case (Dumped r)
    show ?thesis
    proof (cases "\<not> needs_clarification r \<and> (risk_level r = CRITICAL \<or> confidence_score r < 3 / 4)")
      case True
      then show ?thesis using governance_review [of s r K] Some Dumped assms
        by (auto simp: no_update_def)
    next
      case False
      then have "node_governance K s = Inr (no_update\<lparr>u_final_response := Some (model_dump r)\<rparr>)"
        using governance_pass [of s r K] Some Dumped by auto
      then show ?thesis using assms by (auto simp: no_update_def)
    qed
  qed
qed


lemma quiet_frames:
  "u_final_response (node_tool_executor reg s) = None" "u_route (node_tool_executor reg s) = None"
  "u_final_response (node_validator K s) = None" "u_route (node_validator K s) = None"
  "node_semantic_override s = Inr u \<Longrightarrow> u_final_response u = None \<and> u_route u = None"
  by (auto simp: node_tool_executor_def node_validator_def node_semantic_override_def Let_def
      no_update_def no_analysis_def split: option.splits analysis_dict.splits sum.splits)

lemma llm_edges_cases:
  "llm_edges (route_after_llm s) = Some n \<Longrightarrow>
     (n = END \<and> route s = ''blocked'') \<or> (n \<in> {ToolExecutor, Validator} \<and> route s \<noteq> ''blocked'')"
  by (auto simp: llm_edges_def route_after_llm_def split: if_splits)

lemma guardrail_edges_cases:
  "guardrail_edges (route_after_guardrail s) = Some n \<Longrightarrow>
     (n = END \<and> route s = ''blocked'') \<or> (n \<in> {Chat, Retrieve} \<and> route s \<noteq> ''blocked'')"
  by (auto simp: guardrail_edges_def route_after_guardrail_def split: if_splits)

lemma clarify_edges_cases:
  "clarify_edges (route_after_clarify s) = Some n \<Longrightarrow>
     (n = END \<and> route s = ''depends'') \<or> (n = Llm \<and> route s \<noteq> ''depends'')"
  by (auto simp: clarify_edges_def route_after_clarify_def split: if_splits)

lemma result_inv_step:
  assumes "result_inv c" "step K c c'"
  shows "result_inv c'"
  using assms(2,1)
proof (cases rule: step.cases)
  case (guardrail s' s n)
  from guardrail_edges_cases [OF guardrail(4)] guardrail_result [of s]
  show ?thesis using guardrail assms(1)
    by (auto simp: result_inv_def merge_simps)
next
  case (chat gc s tried u)
  from chat_result [OF chat(3)]
  show ?thesis using chat assms(1) by (auto simp: result_inv_def merge_simps)
next
  case (retrieve hs sl s u)
  from retrieve_result [OF retrieve(3)]
  show ?thesis using retrieve assms(1) by (auto simp: result_inv_def merge_simps)
next
  case (clarify gc s tried u s' n)
  from clarify_edges_cases [OF clarify(5)] clarify_result [OF clarify(3)]
  show ?thesis using clarify assms(1) by (auto simp: result_inv_def merge_simps)
next
  case (llm gc s tried u s' n)
  from llm_edges_cases [OF llm(5)] llm_result [OF llm(3)]
  show ?thesis using llm assms(1) by (auto simp: result_inv_def merge_simps)
next
  case (tool_executor s registry)
  then show ?thesis using assms(1) by (auto simp: result_inv_def merge_simps quiet_frames)
next
  case (validator s' s n)
  from validator_edges_cases [OF validator(4)]
  show ?thesis using validator assms(1) by (auto simp: result_inv_def merge_simps quiet_frames)
next
  case (semantic_override s u)
  from quiet_frames(5) [OF semantic_override(3)]
  show ?thesis using semantic_override assms(1) by (auto simp: result_inv_def merge_simps)
next
  case (governance s u)
  from governance_result [OF governance(3)]
  show ?thesis using governance assms(1) by (auto simp: result_inv_def merge_simps)
next
  case (fallback s)
  from fallback_result [of K s]
  show ?thesis using fallback assms(1) by (auto simp: result_inv_def merge_simps)
qed

lemma result_inv_reachable:
  assumes "reachable K (initial_state h q d t sel) c"
  shows "result_inv c"
  using assms unfolding reachable_def
proof (induction rule: rtranclp_induct)
  case base
  then show ?case by (simp add: result_inv_def initial_state_def)
next
  case (step y z)
  then show ?case using result_inv_step by blast
qed

text \<open>
  Claim C8 as stated fails: the final response of the guardrail block is the dump of an
  analysis record, which has no \<open>type\<close> key.
\<close>

theorem discriminator_counterexample:
  "route_after_guardrail (merge demo_blocked (node_guardrail demo_blocked)) = ''end''
   \<and> final_response (merge demo_blocked (node_guardrail demo_blocked))
       = Some (model_dump blocked_response)
   \<and> \<not> has_key (model_dump blocked_response) ''type''"
  by code_simp

text \<open>
  Claim C8, amended. The final responses of the chat stage, of the clarify stage on
  \<open>depends\<close>, of a retrieval that yields nothing, of a failed generation, of the fallback
  and of a governance hold for review carry a \<open>type\<close> key (\<open>chat\<close>,
  \<open>clarification\<close>, \<open>error\<close>, \<open>error\<close>, \<open>error\<close>, \<open>review_required\<close>). The
  final responses of the guardrail block and of the governance pass-through (auto-approved,
  or an analysis that asks for clarification) are the dumped analysis record, which has no
  \<open>type\<close> key. Every final response at the end of a turn is of one of these two kinds.
\<close>

theorem terminal_result_discriminator:
  "(node_chat K gc1 s = (tried, Inr u)
      \<longrightarrow> (\<exists>fr. u_final_response u = Some fr \<and> result_type fr = Some ''chat''))
   \<and> (node_clarify K gc2 s = (tried, u) \<and> u_route u = Some ''depends''
      \<longrightarrow> (\<exists>fr. u_final_response u = Some fr \<and> result_type fr = Some ''clarification''))
   \<and> (node_retrieve K hybrid_search search_lawsuits s = Inr u \<and> u_route u = Some ''blocked''
      \<longrightarrow> (\<exists>fr. u_final_response u = Some fr \<and> result_type fr = Some ''error''))
   \<and> (node_llm K gc3 s = (tried, u) \<and> u_route u = Some ''blocked''
      \<longrightarrow> (\<exists>fr. u_final_response u = Some fr \<and> result_type fr = Some ''error''))
   \<and> (\<exists>fr. u_final_response (node_fallback K s) = Some fr \<and> result_type fr = Some ''error'')
   \<and> (analysis s = Some (Dumped r) \<and> \<not> needs_clarification r
        \<and> (risk_level r = CRITICAL \<or> confidence_score r < 3 / 4)
      \<longrightarrow> (\<exists>fr. node_governance K s = Inr (no_update\<lparr>u_final_response := Some fr\<rparr>)
             \<and> result_type fr = Some ''review_required''))
   \<and> (analysis s = Some (Dumped r)
        \<and> (needs_clarification r \<or> (risk_level r \<noteq> CRITICAL \<and> 3 / 4 \<le> confidence_score r))
      \<longrightarrow> node_governance K s = Inr (no_update\<lparr>u_final_response := Some (model_dump r)\<rparr>)
          \<and> \<not> has_key (model_dump r) ''type'')
   \<and> (u_route (node_guardrail s) = Some ''blocked''
      \<longrightarrow> u_final_response (node_guardrail s) = Some (model_dump blocked_response)
          \<and> \<not> has_key (model_dump blocked_response) ''type'')
   \<and> (reachable K (initial_state history query domain_name tid selections) (END, s')
      \<longrightarrow> (\<exists>fr. final_response s' = Some fr
             \<and> (result_type fr \<in> Some ` set [''chat'', ''error'', ''clarification'', ''review_required'']
                 \<or> ((\<exists>r. fr = model_dump r) \<and> \<not> has_key fr ''type''))))"
proof -
  have nk: "\<not> has_key (model_dump x) ''type''" for x
    by (simp add: has_key_def model_dump_def)
  have 1: "node_chat K gc1 s = (tried, Inr u)
      \<longrightarrow> (\<exists>fr. u_final_response u = Some fr \<and> result_type fr = Some ''chat'')"
    using chat_result by blast
  have 2: "node_clarify K gc2 s = (tried, u) \<and> u_route u = Some ''depends''
      \<longrightarrow> (\<exists>fr. u_final_response u = Some fr \<and> result_type fr = Some ''clarification'')"
    using clarify_result [of K gc2 s tried u] by auto
  have 3: "node_retrieve K hybrid_search search_lawsuits s = Inr u \<and> u_route u = Some ''blocked''
      \<longrightarrow> (\<exists>fr. u_final_response u = Some fr \<and> result_type fr = Some ''error'')"
    using retrieve_result [of K hybrid_search search_lawsuits s u] by auto
  have 4: "node_llm K gc3 s = (tried, u) \<and> u_route u = Some ''blocked''
      \<longrightarrow> (\<exists>fr. u_final_response u = Some fr \<and> result_type fr = Some ''error'')"
    using llm_result [of K gc3 s tried u] by auto
  have 8: "u_route (node_guardrail s) = Some ''blocked''
      \<longrightarrow> u_final_response (node_guardrail s) = Some (model_dump blocked_response)
          \<and> \<not> has_key (model_dump blocked_response) ''type''"
    using guardrail_result [of s] nk by auto
  have 9: "\<exists>fr. final_response s' = Some fr
             \<and> (result_type fr \<in> Some ` set [''chat'', ''error'', ''clarification'', ''review_required'']
                 \<or> ((\<exists>r. fr = model_dump r) \<and> \<not> has_key fr ''type''))"
    if "reachable K (initial_state history query domain_name tid selections) (END, s')"
    using result_inv_reachable [OF that] nk by (auto simp: result_inv_def)
  show ?thesis
    using 1 2 3 4 fallback_result [of K s] governance_review [of s r K] governance_pass [of s r K]
      nk [of r] 8 9
    by blast
qed

theorem terminal_result_discriminator_witness:
  "analysis demo_s7 = Some (Dumped demo_response)
   \<and> node_governance demo_collab demo_s7
       = Inr (no_update\<lparr>u_final_response := Some (model_dump demo_response)\<rparr>)
   \<and> \<not> has_key (model_dump demo_response) ''type''
   \<and> (\<exists>fr. u_final_response (node_fallback demo_collab demo_s7) = Some fr
         \<and> result_type fr = Some ''error'')"
proof -
  have a: "analysis demo_s7 = Some (Dumped demo_response)" by (simp add: demo_s7_def)
  have b: "needs_clarification demo_response
     \<or> (risk_level demo_response \<noteq> CRITICAL \<and> 3 / 4 \<le> confidence_score demo_response)"
    by (simp add: demo_response_def)
  note t = terminal_result_discriminator [of demo_collab _ demo_s7 _ _ _ _ _ _ demo_response]
  from t a b show ?thesis by blast
qed

end
